(* ===== verification/Prelude.thy ===== *)
theory Prelude
  imports Main
begin

text \<open>
  Shared vocabulary of the development: the named collections of rewrite rules
  that the component theories extend, decimal printing and parsing of natural
  numbers (JavaScript's \<open>String(n)\<close> on a non-negative integer, and the digit
  reader behind CSS lengths and array indices) with their round trip, and
  generic facts on lists of pairs used by every component.
\<close>

named_theorems js_simps "evaluation rules of the JavaScript runtime model"
named_theorems render_simps "characteristic equations of rendered element trees"

subsection \<open>Decimal digits\<close>

definition digit_char :: "nat \<Rightarrow> char" where
  "digit_char d = char_of (48 + d)"

definition is_digit :: "char \<Rightarrow> bool" where
  "is_digit c \<longleftrightarrow> (48::nat) \<le> of_char c \<and> (of_char c :: nat) \<le> 57"

fun show_nat :: "nat \<Rightarrow> string" where
  "show_nat n = (if n < 10 then [digit_char n] else show_nat (n div 10) @ [digit_char (n mod 10)])"

declare show_nat.simps [simp del]

fun digits_val :: "nat \<Rightarrow> string \<Rightarrow> nat option" where
  "digits_val acc [] = Some acc"
| "digits_val acc (c # cs) =
     (if is_digit c then digits_val (10 * acc + (of_char c - 48 :: nat)) cs else None)"

definition parse_nat :: "string \<Rightarrow> nat option" where
  "parse_nat s = (if s = [] then None else digits_val 0 s)"

lemma of_char_digit_char [simp]: "d < 10 \<Longrightarrow> of_char (digit_char d) = 48 + d"
  by (simp add: digit_char_def)

lemma is_digit_digit_char [simp, intro]: "d < 10 \<Longrightarrow> is_digit (digit_char d)"
  by (simp add: is_digit_def)

lemma show_nat_nonempty [simp]: "show_nat n \<noteq> []"
  by (subst show_nat.simps) simp

lemma show_nat_digits: "c \<in> set (show_nat n) \<Longrightarrow> is_digit c"
proof (induction n rule: show_nat.induct)
  case (1 n)
  then show ?case
    by (cases "n < 10") (auto simp: show_nat.simps [of n])
qed

lemma digits_val_append:
  "digits_val acc (xs @ ys) = Option.bind (digits_val acc xs) (\<lambda>a. digits_val a ys)"
  by (induction acc xs rule: digits_val.induct) auto

lemma digits_val_show_nat:
  "digits_val acc (show_nat n) = Some (acc * 10 ^ length (show_nat n) + n)"
proof (induction n arbitrary: acc rule: show_nat.induct)
  case (1 n)
  show ?case
  proof (cases "n < 10")
    case True
    then show ?thesis by (simp add: show_nat.simps [of n])
  next
    case False
    then have "digits_val acc (show_nat n) =
        Option.bind (digits_val acc (show_nat (n div 10))) (\<lambda>a. digits_val a [digit_char (n mod 10)])"
      by (simp add: show_nat.simps [of n] digits_val_append)
    also have "\<dots> = Some (10 * (acc * 10 ^ length (show_nat (n div 10)) + n div 10) + n mod 10)"
      using "1.IH" False by simp
    also have "\<dots> = Some (acc * 10 ^ length (show_nat n) + n)"
      using False by (simp add: show_nat.simps [of n] algebra_simps)
    finally show ?thesis .
  qed
qed

lemma parse_nat_show_nat [simp]: "parse_nat (show_nat n) = Some n"
  by (simp add: parse_nat_def digits_val_show_nat)

lemma digits_val_mono_none: "digits_val acc xs = None \<Longrightarrow> digits_val acc (xs @ ys) = None"
  by (simp add: digits_val_append)

subsection \<open>Lists\<close>

lemma concat_map_concat: "concat (map (\<lambda>x. concat (g x)) xs) = concat (concat (map g xs))"
  by (induction xs) simp_all

subsection \<open>Integers\<close>

text \<open>Decimal printing of an integer as JavaScript prints an integral number,
  and the reader that inverts it.\<close>

definition show_int :: "int \<Rightarrow> string" where
  "show_int i = (if i < 0 then CHR ''-'' # show_nat (nat (- i)) else show_nat (nat i))"

definition parse_int :: "string \<Rightarrow> int option" where
  "parse_int s =
     (case s of
        c # r \<Rightarrow> if c = CHR ''-'' then map_option (\<lambda>n. - int n) (parse_nat r)
                 else map_option int (parse_nat s)
      | [] \<Rightarrow> None)"

lemma show_nat_head_digit: "\<exists>c cs. show_nat n = c # cs \<and> is_digit c"
proof -
  obtain c cs where "show_nat n = c # cs"
    using show_nat_nonempty by (cases "show_nat n") auto
  moreover from this have "is_digit c" using show_nat_digits [of c n] by simp
  ultimately show ?thesis by blast
qed

lemma parse_int_show_int [simp]: "parse_int (show_int i) = Some i"
proof (cases "i < 0")
  case True
  then show ?thesis by (simp add: show_int_def parse_int_def)
next
  case False
  obtain c cs where sn: "show_nat (nat i) = c # cs" and "is_digit c"
    using show_nat_head_digit by blast
  then have "c \<noteq> CHR ''-''" by (auto simp: is_digit_def)
  with False sn show ?thesis
    using parse_nat_show_nat [of "nat i"] by (simp add: show_int_def parse_int_def)
qed

lemma show_int_inj: "inj show_int"
  by (rule inj_on_inverseI [where g = "\<lambda>s. the (parse_int s)"]) simp

end
