(* ===== verification/JS_Runtime.thy ===== *)
theory JS_Runtime
  imports Prelude
begin

text \<open>
  The part of the JavaScript semantics the two components rely on: values
  (JSON-like, numbers restricted to integers), the truthiness behind the
  \<open>!\<close> operator, property access \<open>v.p\<close> with its \<open>TypeError\<close> on
  \<open>undefined\<close> and \<open>null\<close>, object spread \<open>{...v}\<close>,
  \<open>Array.prototype.map\<close> with a callback that may throw, and
  \<open>console.log\<close> as an append-only output channel passed as explicit state.
  These are the platform, not code of the repository; the component theories
  are written over them.
\<close>

datatype jsval =
    JUndef
  | JNull
  | JBool bool
  | JNum int
  | JStr string
  | JArr "jsval list"
  | JObj "(string \<times> jsval) list"

datatype js_error = TypeError string

type_synonym 'a js_result = "js_error + 'a"

subsection \<open>Truthiness\<close>

text \<open>
  \<open>!v\<close> is true exactly for the falsy values: \<open>undefined\<close>, \<open>null\<close>,
  \<open>false\<close>, \<open>0\<close> and the empty string. Arrays and objects are truthy,
  the empty array included.
\<close>

fun js_truthy :: "jsval \<Rightarrow> bool" where
  "js_truthy JUndef = False"
| "js_truthy JNull = False"
| "js_truthy (JBool b) = b"
| "js_truthy (JNum n) = (n \<noteq> 0)"
| "js_truthy (JStr s) = (s \<noteq> [])"
| "js_truthy (JArr xs) = True"
| "js_truthy (JObj fs) = True"

subsection \<open>Property access\<close>

text \<open>
  A canonical array index is the decimal form of a natural number, without
  leading zeros.
\<close>

definition array_index :: "string \<Rightarrow> nat option" where
  "array_index k =
     (case parse_nat k of
        None \<Rightarrow> None
      | Some n \<Rightarrow> if show_nat n = k then Some n else None)"

definition lookup_field :: "(string \<times> jsval) list \<Rightarrow> string \<Rightarrow> jsval" where
  "lookup_field fs k = (case map_of fs k of None \<Rightarrow> JUndef | Some v \<Rightarrow> v)"

text \<open>
  \<open>v.k\<close>: reading a property of \<open>undefined\<close> or \<open>null\<close> throws; an
  object yields its own binding or \<open>undefined\<close>; arrays and strings have
  \<open>length\<close> and their indices; other primitives have no own data
  properties the model needs.
\<close>

fun get_prop :: "jsval \<Rightarrow> string \<Rightarrow> jsval js_result" where
  "get_prop JUndef k = Inl (TypeError (''Cannot read properties of undefined (reading '' @ k @ '')''))"
| "get_prop JNull k = Inl (TypeError (''Cannot read properties of null (reading '' @ k @ '')''))"
| "get_prop (JObj fs) k = Inr (lookup_field fs k)"
| "get_prop (JArr xs) k =
     Inr (if k = ''length'' then JNum (int (length xs))
          else case array_index k of
                 Some i \<Rightarrow> if i < length xs then xs ! i else JUndef
               | None \<Rightarrow> JUndef)"
| "get_prop (JStr s) k =
     Inr (if k = ''length'' then JNum (int (length s))
          else case array_index k of
                 Some i \<Rightarrow> if i < length s then JStr [s ! i] else JUndef
               | None \<Rightarrow> JUndef)"
| "get_prop (JBool b) k = Inr JUndef"
| "get_prop (JNum n) k = Inr JUndef"

subsection \<open>Object spread\<close>

text \<open>
  \<open>{...v}\<close> copies the own enumerable properties of \<open>v\<close>: the fields of
  an object, the indices of an array or a string, nothing for the other
  values (spreading \<open>undefined\<close> or \<open>null\<close> is allowed and empty).
\<close>

definition indexed :: "'a list \<Rightarrow> (string \<times> 'a) list" where
  "indexed xs = zip (map show_nat [0..<length xs]) xs"

fun spread_props :: "jsval \<Rightarrow> (string \<times> jsval) list" where
  "spread_props (JObj fs) = fs"
| "spread_props (JArr xs) = indexed xs"
| "spread_props (JStr s) = indexed (map (\<lambda>c. JStr [c]) s)"
| "spread_props v = []"

subsection \<open>Array.prototype.map\<close>

text \<open>
  \<open>a.map(f)\<close> calls \<open>f\<close> on the elements from left to right and
  propagates the first exception. On a value that is not an array the method
  is missing and the call throws.
\<close>

fun map_throwing :: "(jsval \<Rightarrow> 'a js_result) \<Rightarrow> jsval list \<Rightarrow> 'a list js_result" where
  "map_throwing f [] = Inr []"
| "map_throwing f (x # xs) =
     (case f x of
        Inl e \<Rightarrow> Inl e
      | Inr y \<Rightarrow> (case map_throwing f xs of Inl e \<Rightarrow> Inl e | Inr ys \<Rightarrow> Inr (y # ys)))"

fun js_array_map :: "string \<Rightarrow> (jsval \<Rightarrow> 'a js_result) \<Rightarrow> jsval \<Rightarrow> 'a list js_result" where
  "js_array_map name f (JArr xs) = map_throwing f xs"
| "js_array_map name f v = Inl (TypeError (name @ ''.map is not a function''))"

subsection \<open>The console\<close>

type_synonym console = "jsval list"

definition console_log :: "jsval \<Rightarrow> console \<Rightarrow> console" where
  "console_log v out = out @ [v]"

subsection \<open>String coercion\<close>

text \<open>
  \<open>String(v)\<close>, which is also \<open>'' + v\<close>: arrays print their elements
  joined by commas, with \<open>null\<close> and \<open>undefined\<close> elements empty; plain
  objects print as \<open>[object Object]\<close>.
\<close>

fun join_comma :: "string list \<Rightarrow> string" where
  "join_comma [] = []"
| "join_comma [s] = s"
| "join_comma (s # ss) = s @ '','' @ join_comma ss"

fun js_to_string :: "jsval \<Rightarrow> string" where
  "js_to_string JUndef = ''undefined''"
| "js_to_string JNull = ''null''"
| "js_to_string (JBool b) = (if b then ''true'' else ''false'')"
| "js_to_string (JNum n) = show_int n"
| "js_to_string (JStr s) = s"
| "js_to_string (JArr xs) =
     join_comma (map (\<lambda>x. if x = JUndef \<or> x = JNull then [] else js_to_string x) xs)"
| "js_to_string (JObj fs) = ''[object Object]''"

lemma js_to_string_num_inj: "inj_on js_to_string (range JNum)"
  using show_int_inj by (auto simp: inj_on_def inj_def)

subsection \<open>Lemmas\<close>

lemma map_throwing_total [js_simps]:
  "(\<forall>x \<in> set xs. f x = Inr (g x)) \<Longrightarrow> map_throwing f xs = Inr (map g xs)"
  by (induction xs) auto

lemma map_throwing_Inr_length:
  "map_throwing f xs = Inr ys \<Longrightarrow> length ys = length xs"
  by (induction xs arbitrary: ys) (auto split: sum.splits)

lemma map_throwing_Inr_nth:
  "map_throwing f xs = Inr ys \<Longrightarrow> i < length xs \<Longrightarrow> f (xs ! i) = Inr (ys ! i)"
proof (induction xs arbitrary: ys i)
  case Nil
  then show ?case by simp
next
  case (Cons x xs)
  then show ?case
    by (cases i) (auto split: sum.splits)
qed

lemma map_throwing_Inl:
  "f x = Inl e \<Longrightarrow> x \<in> set xs \<Longrightarrow> \<exists>e'. map_throwing f xs = Inl e'"
  by (induction xs) (auto split: sum.splits)

lemma array_index_show_nat [simp]: "array_index (show_nat n) = Some n"
  by (simp add: array_index_def)

lemma lookup_field_Cons [js_simps]:
  "lookup_field ((a, v) # fs) k = (if k = a then v else lookup_field fs k)"
  by (simp add: lookup_field_def)

lemma lookup_field_Nil [js_simps]: "lookup_field [] k = JUndef"
  by (simp add: lookup_field_def)

lemma console_log_length [simp]: "length (console_log v out) = Suc (length out)"
  by (simp add: console_log_def)

end
