(* ===== verification/React_Elements.thy ===== *)
theory React_Elements
  imports JS_Runtime
begin

text \<open>
  React elements as the components return them, before any rendering by the
  library: an element has a type (a component such as \<open>Stack\<close> or
  \<open>CircularProgress\<close>), the \<open>key\<close> value the code passed (\<open>undefined\<close> when
  it passed none), its props other than \<open>children\<close>, and its children.
  A \<open>Slot\<close> stands for content supplied by the caller (the \<open>children\<close>
  prop of a layout), of an arbitrary type \<open>'c\<close>: a lemma over \<open>'c\<close> holds
  for whatever the host passes, and a slot's content is never inspected.
\<close>

datatype 'c node =
    Element (etype: string) (ekey: jsval) (eprops: "(string \<times> jsval) list") (echildren: "'c node list")
  | Slot 'c

text \<open>\<open><T {...props}>{children}</T>\<close> without a key, and with one.\<close>

definition jsx :: "string \<Rightarrow> (string \<times> jsval) list \<Rightarrow> 'c node list \<Rightarrow> 'c node" where
  "jsx t props cs = Element t JUndef props cs"

definition jsx_keyed :: "string \<Rightarrow> jsval \<Rightarrow> (string \<times> jsval) list \<Rightarrow> 'c node" where
  "jsx_keyed t k props = Element t k props []"

fun node_key :: "'c node \<Rightarrow> jsval" where
  "node_key (Element t k p cs) = k"
| "node_key (Slot c) = JUndef"

text \<open>The caller-supplied content of a tree, in document order.\<close>

fun slots :: "'c node \<Rightarrow> 'c list" where
  "slots (Element t k p cs) = concat (map slots cs)"
| "slots (Slot c) = [c]"

text \<open>The elements of a given type in a tree, in document (pre-)order.\<close>

fun elems_of_type :: "string \<Rightarrow> 'c node \<Rightarrow> 'c node list" where
  "elems_of_type ty (Element t k p cs) =
     (if t = ty then [Element t k p cs] else []) @ concat (map (elems_of_type ty) cs)"
| "elems_of_type ty (Slot c) = []"

text \<open>Filling every slot of a tree: how a host's output takes the place of the
  \<open>children\<close> it was given.\<close>

fun plug :: "'c node \<Rightarrow> ('c \<Rightarrow> 'd node) \<Rightarrow> 'd node" where
  "plug (Element t k p cs) f = Element t k p (map (\<lambda>c. plug c f) cs)"
| "plug (Slot c) f = f c"

text \<open>The value of a prop, \<open>undefined\<close> when the element does not set it.\<close>

definition prop_of :: "'c node \<Rightarrow> string \<Rightarrow> jsval" where
  "prop_of n p = (case n of Element t k ps cs \<Rightarrow> lookup_field ps p | Slot c \<Rightarrow> JUndef)"

lemma jsx_simps [render_simps]:
  "etype (jsx t p cs) = t" "ekey (jsx t p cs) = JUndef"
  "eprops (jsx t p cs) = p" "echildren (jsx t p cs) = cs"
  "slots (jsx t p cs) = concat (map slots cs)"
  by (simp_all add: jsx_def)

lemma jsx_keyed_simps [render_simps]:
  "etype (jsx_keyed t k p) = t" "node_key (jsx_keyed t k p) = k"
  "eprops (jsx_keyed t k p) = p" "echildren (jsx_keyed t k p) = []"
  "slots (jsx_keyed t k p) = []"
  by (simp_all add: jsx_keyed_def)

lemma elems_of_type_jsx_keyed [render_simps]:
  "elems_of_type ty (jsx_keyed t k p :: 'c node) = (if t = ty then [jsx_keyed t k p] else [])"
  by (simp add: jsx_keyed_def)

lemma elems_of_type_jsx [render_simps]:
  "elems_of_type ty (jsx t p cs :: 'c node) =
     (if t = ty then [jsx t p cs] else []) @ concat (map (elems_of_type ty) cs)"
  by (simp add: jsx_def)

lemma slots_plug: "slots (plug n f) = concat (map (slots \<circ> f) (slots n))"
proof (induction n)
  case (Element t k p cs)
  have "slots (plug (Element t k p cs) f) = concat (map (\<lambda>x. slots (plug x f)) cs)"
    by (simp add: comp_def)
  also have "\<dots> = concat (map (\<lambda>x. concat (map (slots \<circ> f) (slots x))) cs)"
    using Element.IH by (intro arg_cong [where f = concat] map_cong) (simp_all add: comp_def)
  also have "\<dots> = concat (map (slots \<circ> f) (slots (Element t k p cs)))"
    by (simp add: concat_map_concat map_concat comp_def)
  finally show ?case .
qed simp

lemma elems_of_type_plug:
  "elems_of_type ty n = [] \<Longrightarrow>
     elems_of_type ty (plug n f) = concat (map (elems_of_type ty \<circ> f) (slots n))"
proof (induction n)
  case (Element t k p cs)
  then have t: "t \<noteq> ty" and none: "\<forall>c \<in> set cs. elems_of_type ty c = []"
    by (simp_all split: if_splits)
  have "elems_of_type ty (plug (Element t k p cs) f) = concat (map (\<lambda>x. elems_of_type ty (plug x f)) cs)"
    using t by (simp add: comp_def)
  also have "\<dots> = concat (map (\<lambda>x. concat (map (elems_of_type ty \<circ> f) (slots x))) cs)"
    using Element.IH none by (intro arg_cong [where f = concat] map_cong) (simp_all add: comp_def)
  also have "\<dots> = concat (map (elems_of_type ty \<circ> f) (slots (Element t k p cs)))"
    by (simp add: concat_map_concat map_concat comp_def)
  finally show ?case .
qed simp

lemma slots_leaf_list [render_simps]:
  "(\<forall>n \<in> set ns. slots n = []) \<Longrightarrow> concat (map slots ns) = []"
  by (induction ns) auto

end
