(* ===== verification/Query.thy ===== *)
theory Query
  imports JS_Runtime
begin

text \<open>
  The data-fetching mechanism behind \<open>useAspidaQuery\<close> (react-query driven by
  the generated aspida client), from the spec (sections 3, 5 and 7): one query
  per resource path, which starts pending with no data, becomes successful
  with the parsed response body when a response arrives, and records a
  failure without touching its data when the request fails. The hook hands
  the component the query's \<open>data\<close>, \<open>undefined\<close> while there is none.
  Response bodies are JSON, so they never contain \<open>undefined\<close>.
\<close>

datatype qstatus = QPending | QSuccess | QError

record qstate =
  qstatus :: qstatus
  qdata :: jsval

datatype qevent = Respond jsval | Fail

definition q_init :: qstate where
  "q_init = \<lparr>qstatus = QPending, qdata = JUndef\<rparr>"

fun q_step :: "qstate \<Rightarrow> qevent \<Rightarrow> qstate" where
  "q_step q (Respond v) = q\<lparr>qstatus := QSuccess, qdata := v\<rparr>"
| "q_step q Fail = q\<lparr>qstatus := QError\<rparr>"

fun q_run :: "qstate \<Rightarrow> qevent list \<Rightarrow> qstate" where
  "q_run q [] = q"
| "q_run q (e # es) = q_run (q_step q e) es"

text \<open>JSON values: no \<open>undefined\<close> at any depth.\<close>

fun json_value :: "jsval \<Rightarrow> bool" where
  "json_value JUndef = False"
| "json_value (JArr xs) = list_all json_value xs"
| "json_value (JObj fs) = list_all (\<lambda>f. json_value (snd f)) fs"
| "json_value v = True"

fun json_event :: "qevent \<Rightarrow> bool" where
  "json_event (Respond v) = json_value v"
| "json_event Fail = True"

text \<open>The states a query can reach when the server answers with JSON.\<close>

inductive q_reach :: "qstate \<Rightarrow> bool" where
  init: "q_reach q_init"
| step: "q_reach q \<Longrightarrow> json_event e \<Longrightarrow> q_reach (q_step q e)"

inductive_cases q_reach_stepE: "q_reach q'"

text \<open>The hook's view of a query: its data, \<open>undefined\<close> before the first response.\<close>

definition query_data :: "qstate option \<Rightarrow> jsval" where
  "query_data q = (case q of None \<Rightarrow> JUndef | Some s \<Rightarrow> qdata s)"

text \<open>The invariant: data is defined exactly when the query has succeeded at
  least once, and then it is a JSON value.\<close>

definition q_inv :: "qstate \<Rightarrow> bool" where
  "q_inv q \<longleftrightarrow>
     (qstatus q = QPending \<longrightarrow> qdata q = JUndef) \<and>
     (qstatus q = QSuccess \<longrightarrow> qdata q \<noteq> JUndef) \<and>
     (qdata q = JUndef \<or> json_value (qdata q))"

lemma json_value_defined [simp]: "json_value v \<Longrightarrow> v \<noteq> JUndef"
  by auto

lemma q_inv_init: "q_inv q_init"
  by (simp add: q_inv_def q_init_def)

lemma q_step_inv: "q_inv q \<Longrightarrow> json_event e \<Longrightarrow> q_inv (q_step q e)"
  by (cases e) (auto simp: q_inv_def)

lemma q_run_Cons_reach:
  "q_reach q \<Longrightarrow> list_all json_event es \<Longrightarrow> q_reach (q_run q es)"
  by (induction es arbitrary: q) (auto intro: q_reach.step)

lemma q_run_append: "q_run q (es @ fs) = q_run (q_run q es) fs"
  by (induction es arbitrary: q) auto

lemma q_step_data_kept: "qdata q \<noteq> JUndef \<Longrightarrow> json_event e \<Longrightarrow> qdata (q_step q e) \<noteq> JUndef"
  by (cases e) auto

lemma q_run_data_kept:
  "qdata q \<noteq> JUndef \<Longrightarrow> list_all json_event es \<Longrightarrow> qdata (q_run q es) \<noteq> JUndef"
  by (induction es arbitrary: q) (auto dest: q_step_data_kept)

lemma q_run_no_response:
  "\<forall>e \<in> set es. e = Fail \<Longrightarrow> qdata (q_run q es) = qdata q"
  by (induction es arbitrary: q) auto

lemma q_reach_inv: "q_reach q \<Longrightarrow> q_inv q"
proof (induction rule: q_reach.induct)
  case init
  show ?case by (rule q_inv_init)
next
  case (step q e)
  from step.IH step.hyps(2) show ?case by (rule q_step_inv)
qed

lemma q_reach_pending_undefined: "q_reach q \<Longrightarrow> qstatus q = QPending \<Longrightarrow> qdata q = JUndef"
  using q_reach_inv by (auto simp: q_inv_def)

fun q_states :: "qstate \<Rightarrow> qevent list \<Rightarrow> qstate list" where
  "q_states q [] = [q]"
| "q_states q (e # es) = q # q_states (q_step q e) es"

text \<open>The data after a run is that of its last response: a run either only
  fails, or ends with a response followed by failures only.\<close>

lemma q_run_last_response:
  "\<forall>e \<in> set suf. e = Fail \<Longrightarrow> qdata (q_run q (pre @ Respond w # suf)) = w"
  by (simp add: q_run_append q_run_no_response)

lemma events_last_response:
  "(\<forall>e \<in> set es. e = Fail) \<or> (\<exists>pre w suf. es = pre @ Respond w # suf \<and> (\<forall>e \<in> set suf. e = Fail))"
proof (induction es rule: rev_induct)
  case Nil
  show ?case by simp
next
  case (snoc e es)
  show ?case
  proof (cases e)
    case (Respond w)
    then have "es @ [e] = es @ Respond w # [] \<and> (\<forall>x \<in> set []. x = Fail)" by simp
    then show ?thesis by blast
  next
    case Fail
    from snoc.IH show ?thesis
    proof
      assume "\<forall>x \<in> set es. x = Fail"
      with Fail show ?thesis by simp
    next
      assume "\<exists>pre w suf. es = pre @ Respond w # suf \<and> (\<forall>x \<in> set suf. x = Fail)"
      then obtain pre w suf where "es = pre @ Respond w # suf" and "\<forall>x \<in> set suf. x = Fail" by blast
      with Fail have "es @ [e] = pre @ Respond w # (suf @ [Fail]) \<and> (\<forall>x \<in> set (suf @ [Fail]). x = Fail)" by simp
      then show ?thesis by blast
    qed
  qed
qed

end
