(* ===== verification/TodoList.thy ===== *)
theory TodoList
  imports React_Elements Query
begin

text \<open>
  The \<open>TodoList\<close> component of \<open>src/src/components/index/TodoList/index.tsx\<close>.
  One render builds the API client, reads the \<open>/todos\<close> query through the
  hook, returns the spinner when the data is falsy, and otherwise logs the
  data and maps each record to a keyed \<open>TodoListItem\<close> row inside a
  \<open>Stack\<close>. A render returns the element tree or the exception it throws,
  together with the console after the render.
\<close>

subsection \<open>The client and the hook\<close>

text \<open>
  The generated client \<open>api/$api\<close> bound to a transport adapter
  (\<open>aspida(axiosApi)\<close>; the commented-out Tauri client would use
  \<open>aspidaFetch(tauriFetch)\<close>). Its \<open>todos\<close> endpoint is identified by its
  path, which is the key of the query the hook subscribes to.
\<close>

datatype transport = AspidaAxios | AspidaFetch

record api_client =
  client_transport :: transport

record endpoint =
  ep_transport :: transport
  ep_path :: string

definition api :: "transport \<Rightarrow> api_client" where
  "api t = \<lparr>client_transport = t\<rparr>"

definition client_todos :: "api_client \<Rightarrow> endpoint" where
  "client_todos c = \<lparr>ep_transport = client_transport c, ep_path = ''/todos''\<rparr>"

type_synonym query_cache = "string \<rightharpoonup> qstate"

definition useAspidaQuery :: "query_cache \<Rightarrow> endpoint \<Rightarrow> jsval" where
  "useAspidaQuery cache ep = query_data (cache (ep_path ep))"

subsection \<open>The rendered elements\<close>

definition CircularProgress_elem :: "'c node" where
  "CircularProgress_elem = jsx ''CircularProgress'' [] []"

definition todolist_sx :: jsval where
  "todolist_sx = JObj [(''maxWidth'', JStr ''800px''), (''width'', JStr ''100%''),
                       (''borderRadius'', JNum 2), (''overflow'', JStr ''hidden'')]"

text \<open>\<open><TodoListItem key={value.id} {...value} />\<close>: reading \<open>value.id\<close>
  throws when the record is \<open>undefined\<close> or \<open>null\<close>.\<close>

definition TodoListItem_elem :: "jsval \<Rightarrow> 'c node js_result" where
  "TodoListItem_elem value =
     (case get_prop value ''id'' of
        Inl e \<Rightarrow> Inl e
      | Inr k \<Rightarrow> Inr (jsx_keyed ''TodoListItem'' k (spread_props value)))"

text \<open>Lines 20--40: the guard on \<open>!_todos\<close> (here \<open>todos_data\<close>), the log, and the list.\<close>

definition TodoList_body :: "jsval \<Rightarrow> console \<Rightarrow> 'c node js_result \<times> console" where
  "TodoList_body todos_data out =
     (if \<not> js_truthy todos_data then (Inr CircularProgress_elem, out)
      else
        (let todos = todos_data;
             out' = console_log todos out
         in (case js_array_map ''todos'' TodoListItem_elem todos of
               Inl e \<Rightarrow> (Inl e, out')
             | Inr rows \<Rightarrow> (Inr (jsx ''Stack'' [(''sx'', todolist_sx)] rows), out'))))"

text \<open>The whole function component: a fresh client on every render, then the hook.\<close>

definition TodoList_Component :: "query_cache \<Rightarrow> console \<Rightarrow> 'c node js_result \<times> console" where
  "TodoList_Component cache out =
     (let client = api AspidaAxios;
          todos_data = useAspidaQuery cache (client_todos client)
      in TodoList_body todos_data out)"

subsection \<open>Rows\<close>

text \<open>
  The record's \<open>id\<close> as the row reads it (\<open>undefined\<close> when it has none),
  the row element a record that is not \<open>null\<close> or \<open>undefined\<close> yields, and
  the array the data holds, if it is one.
\<close>

definition id_of :: "jsval \<Rightarrow> jsval" where
  "id_of v = (case get_prop v ''id'' of Inl e \<Rightarrow> JUndef | Inr k \<Rightarrow> k)"

definition todo_row :: "jsval \<Rightarrow> 'c node" where
  "todo_row v = jsx_keyed ''TodoListItem'' (id_of v) (spread_props v)"

fun load_state :: "jsval \<Rightarrow> jsval list option" where
  "load_state (JArr xs) = Some xs"
| "load_state v = None"

subsection \<open>Lemmas\<close>

definition nullish :: "jsval \<Rightarrow> bool" where
  "nullish v \<longleftrightarrow> v = JUndef \<or> v = JNull"

lemma TodoListItem_elem_row [render_simps]:
  "\<not> nullish v \<Longrightarrow> TodoListItem_elem v = Inr (todo_row v)"
  by (cases v) (simp_all add: nullish_def TodoListItem_elem_def todo_row_def id_of_def)

lemma TodoListItem_elem_nullish:
  "nullish v \<Longrightarrow> \<exists>e. TodoListItem_elem v = Inl e"
  by (auto simp: nullish_def TodoListItem_elem_def)

lemma map_rows_total:
  "\<forall>v \<in> set xs. \<not> nullish v \<Longrightarrow> map_throwing TodoListItem_elem xs = Inr (map todo_row xs)"
  by (rule map_throwing_total) (simp add: TodoListItem_elem_row)

lemma map_rows_throws:
  "\<exists>v \<in> set xs. nullish v \<Longrightarrow> \<exists>e. map_throwing (TodoListItem_elem :: jsval \<Rightarrow> 'c node js_result) xs = Inl e"
  using TodoListItem_elem_nullish map_throwing_Inl by blast

lemma TodoList_body_truthy:
  "js_truthy d \<Longrightarrow> TodoList_body d out =
     (case js_array_map ''todos'' TodoListItem_elem d of
        Inl e \<Rightarrow> (Inl e, console_log d out)
      | Inr rows \<Rightarrow> (Inr (jsx ''Stack'' [(''sx'', todolist_sx)] rows), console_log d out))"
  by (simp add: TodoList_body_def Let_def)

lemma TodoList_body_falsy [render_simps]:
  "\<not> js_truthy d \<Longrightarrow> TodoList_body d out = (Inr CircularProgress_elem, out)"
  by (simp add: TodoList_body_def)

lemma TodoList_body_rows [render_simps]:
  "\<forall>v \<in> set xs. \<not> nullish v \<Longrightarrow>
     TodoList_body (JArr xs) out =
       (Inr (jsx ''Stack'' [(''sx'', todolist_sx)] (map todo_row xs)), out @ [JArr xs])"
  by (simp add: TodoList_body_def map_rows_total console_log_def)

lemma TodoList_body_nullish_row:
  "\<exists>v \<in> set xs. nullish v \<Longrightarrow>
     \<exists>e. (TodoList_body (JArr xs) out :: 'c node js_result \<times> console) = (Inl e, out @ [JArr xs])"
proof -
  assume "\<exists>v \<in> set xs. nullish v"
  then obtain e where "map_throwing (TodoListItem_elem :: jsval \<Rightarrow> 'c node js_result) xs = Inl e"
    using map_rows_throws by blast
  then show ?thesis by (simp add: TodoList_body_def console_log_def Let_def)
qed

lemma TodoList_body_not_array:
  "js_truthy d \<Longrightarrow> load_state d = None \<Longrightarrow>
     TodoList_body d out = (Inl (TypeError ''todos.map is not a function''), out @ [d])"
  by (cases d) (simp_all add: TodoList_body_def console_log_def)

lemma TodoList_body_console:
  "snd (TodoList_body d out) = (if js_truthy d then out @ [d] else out)"
  by (simp add: TodoList_body_def Let_def console_log_def split: sum.split)

lemma elems_of_type_todo_row [render_simps]:
  "elems_of_type ty (todo_row v :: 'c node) = (if ty = ''TodoListItem'' then [todo_row v] else [])"
  by (simp add: todo_row_def render_simps)

subsection \<open>Properties\<close>

text \<open>
  C1. While the data is falsy (\<open>undefined\<close> before the first response, but
  also a resolved \<open>null\<close>, \<open>0\<close>, \<open>false\<close> or \<open>''''\<close>), the component
  renders the loading indicator alone and logs nothing.
\<close>

theorem falsy_data_renders_spinner:
  assumes "\<not> js_truthy d"
  shows "TodoList_body d out = (Inr CircularProgress_elem, out)"
  using assms by (rule TodoList_body_falsy)

theorem falsy_data_renders_spinner_witness:
  "TodoList_body JUndef [JNum 1] = (Inr (CircularProgress_elem :: nat node), [JNum 1])"
  using falsy_data_renders_spinner [of JUndef "[JNum 1]"] by simp

text \<open>
  C2. A resolved array with no \<open>null\<close> or \<open>undefined\<close> element renders a
  \<open>Stack\<close> holding one \<open>TodoListItem\<close> per element, in input order, keyed
  by the element's \<open>id\<close> and given all its fields; the array is logged once.
\<close>

theorem array_renders_rows:
  assumes "\<forall>v \<in> set xs. \<not> nullish v"
  shows "TodoList_body (JArr xs) out =
           (Inr (jsx ''Stack'' [(''sx'', todolist_sx)] (map todo_row xs)), out @ [JArr xs])"
  using assms by (rule TodoList_body_rows)

theorem array_renders_rows_witness:
  "TodoList_body (JArr [JObj [(''id'', JNum 7), (''title'', JStr ''a'')]]) [] =
     (Inr (jsx ''Stack'' [(''sx'', todolist_sx)]
             [jsx_keyed ''TodoListItem'' (JNum 7) [(''id'', JNum 7), (''title'', JStr ''a'')] :: nat node]),
      [JArr [JObj [(''id'', JNum 7), (''title'', JStr ''a'')]]])"
  using array_renders_rows [of "[JObj [(''id'', JNum 7), (''title'', JStr ''a'')]]" "[]"]
  by (simp add: nullish_def todo_row_def id_of_def js_simps)

text \<open>
  C3. For such an array the tree holds exactly one \<open>TodoListItem\<close> element
  per record and no loading indicator.
\<close>

theorem array_rows_counted:
  assumes "\<forall>v \<in> set xs. \<not> nullish v"
  shows "\<exists>n. fst (TodoList_body (JArr xs) out) = Inr n \<and>
             length (elems_of_type ''TodoListItem'' n) = length xs \<and>
             elems_of_type ''CircularProgress'' n = []"
  using assms by (simp add: render_simps comp_def)

theorem array_rows_counted_witness:
  "\<exists>n. fst (TodoList_body (JArr [JObj [(''id'', JNum 1)], JObj [(''id'', JNum 2)]]) []) = Inr (n :: nat node) \<and>
       length (elems_of_type ''TodoListItem'' n) = 2 \<and> elems_of_type ''CircularProgress'' n = []"
  using array_rows_counted [of "[JObj [(''id'', JNum 1)], JObj [(''id'', JNum 2)]]" "[]"]
  by (simp add: nullish_def numeral_2_eq_2)

text \<open>
  C4. Truthy data that is not an array (an object, a number, a string) is
  logged first, and then \<open>todos.map\<close> throws.
\<close>

theorem non_array_data_throws_after_log:
  assumes "js_truthy d" and "load_state d = None"
  shows "TodoList_body d out = (Inl (TypeError ''todos.map is not a function''), out @ [d])"
  using assms by (rule TodoList_body_not_array)

theorem non_array_data_throws_after_log_witness:
  "TodoList_body (JObj [(''id'', JNum 1)]) [] =
     (Inl (TypeError ''todos.map is not a function'') :: nat node js_result, [JObj [(''id'', JNum 1)]])"
  using non_array_data_throws_after_log [of "JObj [(''id'', JNum 1)]" "[]"] by simp

text \<open>
  C5. A render returns an element tree, and throws nothing, exactly when the
  data is falsy or an array none of whose elements is \<open>null\<close> or
  \<open>undefined\<close>.
\<close>

theorem render_total_iff:
  "(\<exists>n :: 'c node. fst (TodoList_body d out) = Inr n) \<longleftrightarrow>
     (\<not> js_truthy d \<or> (\<exists>xs. d = JArr xs \<and> (\<forall>v \<in> set xs. \<not> nullish v)))"
proof (cases "js_truthy d")
  case False
  then show ?thesis by (simp add: TodoList_body_falsy)
next
  case True
  show ?thesis
  proof (cases "load_state d")
    case None
    with True show ?thesis by (cases d) (simp_all add: TodoList_body_not_array)
  next
    case (Some xs)
    then have d: "d = JArr xs" by (cases d) simp_all
    show ?thesis
    proof (cases "\<exists>v \<in> set xs. nullish v")
      case True
      then obtain e where "(TodoList_body (JArr xs) out :: 'c node js_result \<times> console) = (Inl e, out @ [JArr xs])"
        using TodoList_body_nullish_row by blast
      with d True show ?thesis by auto
    next
      case False
      with d show ?thesis by (simp add: TodoList_body_rows)
    qed
  qed
qed

theorem render_total_iff_witness:
  "(\<exists>n. fst (TodoList_body (JArr [JNull]) []) = Inr (n :: nat node)) = False"
  using render_total_iff [of "JArr [JNull]" "[]"] by (simp add: nullish_def)

text \<open>
  C7. The console effect of a render: exactly one entry, the data itself,
  when the data is truthy (whether or not the render then throws), and none
  otherwise.
\<close>

theorem render_console_effect:
  "snd (TodoList_body d out) = (if js_truthy d then out @ [d] else out)"
  by (rule TodoList_body_console)

end
