(* ===== verification/JSX_Runtime.thy ===== *)
theory JSX_Runtime
  imports React_Elements
begin

text \<open>
  What React's JSX runtime makes of an element the code creates. The code's
  \<open><T key={k} {...config} />\<close> compiles to \<open>jsx(T, {...config}, k)\<close>, and
  React 18's \<open>jsx\<close> then fixes the element's key and props: the key is the
  string \<open>'' + k\<close> when \<open>k\<close> is not \<open>undefined\<close>, overridden by
  \<open>'' + config.key\<close> when the config has a defined \<open>key\<close>, and absent
  (\<open>null\<close>) otherwise; the props are the config without the reserved names
  \<open>key\<close>, \<open>ref\<close>, \<open>__self\<close> and \<open>__source\<close>. Sibling keys are compared as
  these strings.
\<close>

definition react_key :: "jsval \<Rightarrow> (string \<times> jsval) list \<Rightarrow> string option" where
  "react_key maybeKey config =
     (let k = (if maybeKey = JUndef then None else Some (js_to_string maybeKey))
      in if lookup_field config ''key'' \<noteq> JUndef
         then Some (js_to_string (lookup_field config ''key'')) else k)"

definition reserved_prop :: "string \<Rightarrow> bool" where
  "reserved_prop p \<longleftrightarrow> p \<in> set [''key'', ''ref'', ''__self'', ''__source'']"

definition react_props :: "(string \<times> jsval) list \<Rightarrow> (string \<times> jsval) list" where
  "react_props config = filter (\<lambda>(p, v). \<not> reserved_prop p) config"

fun element_key :: "'c node \<Rightarrow> string option" where
  "element_key (Element t k ps cs) = react_key k ps"
| "element_key (Slot c) = None"

fun element_props :: "'c node \<Rightarrow> (string \<times> jsval) list" where
  "element_props (Element t k ps cs) = react_props ps"
| "element_props (Slot c) = []"

lemma element_key_jsx_keyed [render_simps]:
  "element_key (jsx_keyed t k ps :: 'c node) = react_key k ps"
  by (simp add: jsx_keyed_def)

lemma element_props_jsx_keyed [render_simps]:
  "element_props (jsx_keyed t k ps :: 'c node) = react_props ps"
  by (simp add: jsx_keyed_def)

lemma react_key_no_key_field:
  "lookup_field config ''key'' = JUndef \<Longrightarrow> maybeKey \<noteq> JUndef \<Longrightarrow>
     react_key maybeKey config = Some (js_to_string maybeKey)"
  by (simp add: react_key_def)

lemma react_key_key_field:
  "lookup_field config ''key'' \<noteq> JUndef \<Longrightarrow>
     react_key maybeKey config = Some (js_to_string (lookup_field config ''key''))"
  by (simp add: react_key_def)

end
