(* ===== verification/TodoList_Keys.thy ===== *)
theory TodoList_Keys
  imports TodoList JSX_Runtime
begin

text \<open>
  The rows of \<open>TodoList\<close> (line 37) as React sees them after its JSX runtime
  has fixed each element's key and props: keys are the strings \<open>'' + id\<close>,
  unless a record carries its own \<open>key\<close> field, and the props are the
  record's fields without the names React reserves.
\<close>

text \<open>A record whose \<open>id\<close> is an integer and which has no \<open>key\<close> field.\<close>

fun int_id_record :: "jsval \<Rightarrow> bool" where
  "int_id_record (JObj fs) =
     ((case lookup_field fs ''id'' of JNum i \<Rightarrow> True | _ \<Rightarrow> False) \<and> lookup_field fs ''key'' = JUndef)"
| "int_id_record v = False"

text \<open>
  The spec's promise (sections 4.2 and 6) read off a rendered tree as React
  sees it: the loading indicator, or the rows with the key React compares
  and the props the row component receives. The spec's rows are keyed by the
  record's \<open>id\<close>, which React compares as the string \<open>'' + id\<close>, and receive
  all of the record's fields.
\<close>

datatype rendered_view = Spinner | Rows "(string option \<times> (string \<times> jsval) list) list" | Unexpected

fun view_of_render :: "'c node \<Rightarrow> rendered_view" where
  "view_of_render (Element t k ps cs) =
     (if t = ''CircularProgress'' then Spinner
      else if t = ''Stack'' then Rows (map (\<lambda>c. (element_key c, element_props c)) cs)
      else Unexpected)"
| "view_of_render (Slot c) = Unexpected"

fun promised_view :: "jsval list option \<Rightarrow> rendered_view" where
  "promised_view None = Spinner"
| "promised_view (Some xs) = Rows (map (\<lambda>v. (Some (js_to_string (id_of v)), spread_props v)) xs)"

text \<open>A todo record as the spec describes it (section 3): an object with an
  \<open>id\<close>; the records the refinement covers also have no field whose name
  React reserves.\<close>

fun todo_record :: "jsval \<Rightarrow> bool" where
  "todo_record (JObj fs) =
     (lookup_field fs ''id'' \<noteq> JUndef \<and> list_all (\<lambda>kv. \<not> reserved_prop (fst kv)) fs)"
| "todo_record v = False"

fun todo_records_data :: "jsval \<Rightarrow> bool" where
  "todo_records_data JUndef = True"
| "todo_records_data (JArr xs) = list_all todo_record xs"
| "todo_records_data v = False"

subsection \<open>Lemmas\<close>

lemma int_id_record_not_nullish: "int_id_record v \<Longrightarrow> \<not> nullish v"
  by (cases v) (simp_all add: nullish_def)

lemma int_id_record_id: "int_id_record v \<Longrightarrow> id_of v \<in> range JNum"
  by (cases v) (auto simp: id_of_def split: jsval.splits)

lemma int_id_record_key:
  "int_id_record v \<Longrightarrow> element_key (todo_row v :: 'c node) = Some (js_to_string (id_of v))"
  by (cases v) (auto simp: todo_row_def render_simps react_key_def id_of_def split: jsval.splits)

lemma rows_of_int_id_records:
  "\<forall>v \<in> set xs. int_id_record v \<Longrightarrow>
     map element_key (map (todo_row :: jsval \<Rightarrow> 'c node) xs) = map (\<lambda>x. Some (js_to_string x)) (map id_of xs)"
  by (simp add: int_id_record_key)

lemma inj_on_key_of_ids:
  "\<forall>v \<in> set xs. int_id_record v \<Longrightarrow> inj_on (\<lambda>x. Some (js_to_string x)) (set (map id_of xs))"
proof -
  assume "\<forall>v \<in> set xs. int_id_record v"
  then have "set (map id_of xs) \<subseteq> range JNum" using int_id_record_id by auto
  moreover have "inj_on (\<lambda>x. Some (js_to_string x)) (range JNum)"
    using js_to_string_num_inj by (auto simp: inj_on_def)
  ultimately show ?thesis by (rule inj_on_subset [rotated])
qed

lemma todo_record_not_nullish: "todo_record v \<Longrightarrow> \<not> nullish v"
  by (cases v) (simp_all add: nullish_def)

lemma todo_record_row:
  assumes "todo_record v"
  shows "element_key (todo_row v :: 'c node) = Some (js_to_string (id_of v)) \<and>
         element_props (todo_row v :: 'c node) = spread_props v"
proof (cases v)
  case (JObj fs)
  with assms have "''key'' \<notin> fst ` set fs" by (auto simp: list_all_iff reserved_prop_def)
  then have "map_of fs ''key'' = None" by (simp add: map_of_eq_None_iff)
  then have "lookup_field fs ''key'' = JUndef" by (simp add: lookup_field_def)
  moreover have "filter (\<lambda>(p, x). \<not> reserved_prop p) fs = fs"
    using JObj assms by (auto simp: filter_id_conv list_all_iff)
  ultimately show ?thesis using JObj assms
    by (simp add: todo_row_def render_simps react_key_def react_props_def id_of_def)
qed (use assms in simp_all)

subsection \<open>Properties\<close>

text \<open>
  C14. For records with integer \<open>id\<close>s and no \<open>key\<close> field, the keys React
  compares (the strings \<open>'' + id\<close>) are pairwise distinct exactly when the
  \<open>id\<close>s are: decimal printing of integers is injective.
\<close>

theorem react_keys_distinct_iff_int_ids:
  assumes "\<forall>v \<in> set xs. int_id_record v"
  shows "\<exists>n :: 'c node. fst (TodoList_body (JArr xs) out) = Inr n \<and>
             (distinct (map element_key (echildren n)) \<longleftrightarrow> distinct (map id_of xs))"
proof -
  from assms have "\<forall>v \<in> set xs. \<not> nullish v" by (simp add: int_id_record_not_nullish)
  then have "fst (TodoList_body (JArr xs) out) = Inr (jsx ''Stack'' [(''sx'', todolist_sx)] (map todo_row xs) :: 'c node)"
    by (simp add: TodoList_body_rows)
  moreover have "distinct (map element_key (map (todo_row :: jsval \<Rightarrow> 'c node) xs)) \<longleftrightarrow> distinct (map id_of xs)"
    using assms by (simp only: rows_of_int_id_records distinct_map inj_on_key_of_ids) simp
  ultimately show ?thesis by (simp add: render_simps)
qed

theorem react_keys_distinct_iff_int_ids_witness:
  "\<exists>n. fst (TodoList_body (JArr [JObj [(''id'', JNum 1)], JObj [(''id'', JNum 2)]]) []) = Inr (n :: nat node) \<and>
       distinct (map element_key (echildren n))"
  using react_keys_distinct_iff_int_ids [of "[JObj [(''id'', JNum 1)], JObj [(''id'', JNum 2)]]" "[]"]
  by (simp add: id_of_def js_simps)

text \<open>
  C15. A record with a defined \<open>key\<close> field has that field, not its \<open>id\<close>,
  as the React key of its row: the spread after \<open>key={value.id}\<close> overrides it.
\<close>

theorem record_key_field_overrides_id:
  assumes "lookup_field fs ''key'' \<noteq> JUndef"
  shows "\<exists>n. fst (TodoList_body (JArr [JObj fs]) out) = Inr n \<and>
             map element_key (echildren n) = [Some (js_to_string (lookup_field fs ''key''))]"
  using assms by (simp add: TodoList_body_rows nullish_def render_simps todo_row_def react_key_key_field)

theorem record_key_field_overrides_id_witness:
  "\<exists>n. fst (TodoList_body (JArr [JObj [(''id'', JNum 1), (''key'', JStr ''k'')]]) []) = Inr (n :: nat node) \<and>
       map element_key (echildren n) = [Some ''k'']"
  using record_key_field_overrides_id [of "[(''id'', JNum 1), (''key'', JStr ''k'')]" "[]"]
  by (simp add: js_simps)

text \<open>
  C16. A row receives the record's fields without \<open>key\<close>, \<open>ref\<close>,
  \<open>__self\<close> and \<open>__source\<close>: not "all of that record's fields" when a record
  has a field of one of these names.
\<close>

theorem row_props_drop_reserved:
  assumes "\<forall>v \<in> set xs. \<not> nullish v"
  shows "\<exists>n. fst (TodoList_body (JArr xs) out) = Inr n \<and>
             map element_props (echildren n) =
               map (\<lambda>v. filter (\<lambda>(p, x). \<not> reserved_prop p) (spread_props v)) xs"
  using assms by (simp add: TodoList_body_rows render_simps todo_row_def react_props_def)

theorem row_props_drop_reserved_witness:
  "\<exists>n. fst (TodoList_body (JArr [JObj [(''id'', JNum 1), (''ref'', JStr ''r'')]]) []) = Inr (n :: nat node) \<and>
       map element_props (echildren n) = [[(''id'', JNum 1)]]"
  using row_props_drop_reserved [of "[JObj [(''id'', JNum 1), (''ref'', JStr ''r'')]]" "[]"]
  by (simp add: nullish_def reserved_prop_def)

text \<open>
  C6. Refinement of the spec's contract through React's JSX runtime: on data
  that is \<open>undefined\<close> or an array of todo records (each with an \<open>id\<close> and no
  reserved field name), the rendered tree, read as React keys and props, is
  the view the spec promises: the loading indicator while pending, and once
  resolved one row per record, in order, keyed by \<open>'' + id\<close> and receiving
  all of its fields.
\<close>

theorem render_refines_spec_view:
  assumes "todo_records_data d"
  shows "\<exists>n :: 'c node. fst (TodoList_body d out) = Inr n \<and> view_of_render n = promised_view (load_state d)"
proof (cases d)
  case JUndef
  then show ?thesis by (simp add: TodoList_body_falsy CircularProgress_elem_def jsx_def)
next
  case (JArr xs)
  with assms have recs: "\<forall>v \<in> set xs. todo_record v" by (simp add: list_all_iff)
  then have "\<forall>v \<in> set xs. \<not> nullish v" by (simp add: todo_record_not_nullish)
  with JArr recs show ?thesis by (simp add: TodoList_body_rows jsx_def todo_record_row)
qed (use assms in simp_all)

theorem render_refines_spec_view_witness:
  "\<exists>n :: nat node. fst (TodoList_body (JArr [JObj [(''id'', JNum 3), (''title'', JStr ''a'')]]) []) = Inr n \<and>
     view_of_render n = Rows [(Some (js_to_string (JNum 3)), [(''id'', JNum 3), (''title'', JStr ''a'')])]"
proof -
  have "todo_records_data (JArr [JObj [(''id'', JNum 3), (''title'', JStr ''a'')]])"
    by (simp add: js_simps reserved_prop_def)
  from render_refines_spec_view [OF this, of "[]"] show ?thesis by (simp add: id_of_def js_simps)
qed

end
