(* ===== verification/CSS_Lengths.thy ===== *)
theory CSS_Lengths
  imports JS_Runtime
begin

text \<open>
  The CSS lengths the layout writes into its \<open>sx\<close> props, and how the
  browser resolves them: absolute pixels, viewport units, percentages of the
  containing block and a \<open>calc()\<close> difference of two of these. The printer
  gives the source text of a length, the parser reads it back, and
  \<open>css_eval\<close> resolves it against a viewport and a containing-block size.
  A height that resolves below zero is used as zero: \<open>calc()\<close> results are
  clamped to the range the property allows, and heights are never negative.
  Pixel values are whole numbers here; \<open>100vh\<close>, \<open>100vw\<close> and \<open>100%\<close>,
  the only relative lengths of the code, resolve exactly.
\<close>

datatype css_len = Px nat | Vw nat | Vh nat | Pct nat | CalcSub css_len css_len

fun css_print :: "css_len \<Rightarrow> string" where
  "css_print (Px n) = show_nat n @ ''px''"
| "css_print (Vw n) = show_nat n @ ''vw''"
| "css_print (Vh n) = show_nat n @ ''vh''"
| "css_print (Pct n) = show_nat n @ ''%''"
| "css_print (CalcSub a b) = ''calc('' @ css_print a @ '' - '' @ css_print b @ '')''"

definition css_unit :: "string \<Rightarrow> nat \<Rightarrow> css_len option" where
  "css_unit u n =
     (if u = ''px'' then Some (Px n)
      else if u = ''vw'' then Some (Vw n)
      else if u = ''vh'' then Some (Vh n)
      else if u = ''%'' then Some (Pct n)
      else None)"

definition css_parse_simple :: "string \<Rightarrow> css_len option" where
  "css_parse_simple s =
     (case parse_nat (takeWhile is_digit s) of
        None \<Rightarrow> None
      | Some n \<Rightarrow> css_unit (dropWhile is_digit s) n)"

fun split_minus :: "string \<Rightarrow> (string \<times> string) option" where
  "split_minus [] = None"
| "split_minus (c # cs) =
     (if take 3 (c # cs) = '' - '' then Some ([], drop 3 (c # cs))
      else map_option (\<lambda>(a, b). (c # a, b)) (split_minus cs))"

definition strip_prefix :: "string \<Rightarrow> string \<Rightarrow> string option" where
  "strip_prefix p s = (if take (length p) s = p then Some (drop (length p) s) else None)"

definition css_parse :: "string \<Rightarrow> css_len option" where
  "css_parse s =
     (case strip_prefix ''calc('' s of
        None \<Rightarrow> css_parse_simple s
      | Some r \<Rightarrow>
          if r \<noteq> [] \<and> last r = CHR '')'' then
            (case split_minus (butlast r) of
               None \<Rightarrow> None
             | Some (a, b) \<Rightarrow>
                 (case (css_parse_simple a, css_parse_simple b) of
                    (Some x, Some y) \<Rightarrow> Some (CalcSub x y)
                  | _ \<Rightarrow> None))
          else None)"

text \<open>The lengths the parser reads: a simple length, or \<open>calc()\<close> of two.\<close>

fun css_simple :: "css_len \<Rightarrow> bool" where
  "css_simple (CalcSub a b) = False"
| "css_simple l = True"

fun css_wf :: "css_len \<Rightarrow> bool" where
  "css_wf (CalcSub a b) = (css_simple a \<and> css_simple b)"
| "css_wf l = True"

record viewport =
  vp_width :: nat
  vp_height :: nat

fun css_eval :: "viewport \<Rightarrow> nat \<Rightarrow> css_len \<Rightarrow> int" where
  "css_eval vp base (Px n) = int n"
| "css_eval vp base (Vw n) = int (n * vp_width vp div 100)"
| "css_eval vp base (Vh n) = int (n * vp_height vp div 100)"
| "css_eval vp base (Pct n) = int (n * base div 100)"
| "css_eval vp base (CalcSub a b) = css_eval vp base a - css_eval vp base b"

definition css_used :: "int \<Rightarrow> nat" where
  "css_used x = nat x"

text \<open>A length-valued entry of an \<open>sx\<close> prop, parsed.\<close>

definition sx_length :: "(string \<times> jsval) list \<Rightarrow> string \<Rightarrow> css_len option" where
  "sx_length props p =
     (case lookup_field props ''sx'' of
        JObj fs \<Rightarrow> (case lookup_field fs p of JStr s \<Rightarrow> css_parse s | _ \<Rightarrow> None)
      | _ \<Rightarrow> None)"

subsection \<open>The round trip\<close>

fun css_num :: "css_len \<Rightarrow> nat" where
  "css_num (Px n) = n" | "css_num (Vw n) = n" | "css_num (Vh n) = n" | "css_num (Pct n) = n"
| "css_num (CalcSub a b) = 0"

fun css_suffix :: "css_len \<Rightarrow> string" where
  "css_suffix (Px n) = ''px''" | "css_suffix (Vw n) = ''vw''" | "css_suffix (Vh n) = ''vh''"
| "css_suffix (Pct n) = ''%''" | "css_suffix (CalcSub a b) = []"

lemma css_print_simple: "css_simple l \<Longrightarrow> css_print l = show_nat (css_num l) @ css_suffix l"
  by (cases l) simp_all

lemma css_unit_suffix: "css_simple l \<Longrightarrow> css_unit (css_suffix l) (css_num l) = Some l"
  by (cases l) (simp_all add: css_unit_def)

lemma css_suffix_shape:
  "css_simple l \<Longrightarrow> \<exists>c cs. css_suffix l = c # cs \<and> \<not> is_digit c \<and> CHR '' '' \<notin> set (c # cs)"
  by (cases l) (simp_all add: is_digit_def)

lemma css_parse_simple_print:
  assumes "css_simple l"
  shows "css_parse_simple (css_print l) = Some l"
proof -
  obtain c cs where u: "css_suffix l = c # cs" "\<not> is_digit c"
    using css_suffix_shape [OF assms] by blast
  have "takeWhile is_digit (show_nat (css_num l) @ css_suffix l) = show_nat (css_num l)"
    using u by (simp add: takeWhile_append2 show_nat_digits)
  moreover have "dropWhile is_digit (show_nat (css_num l) @ css_suffix l) = css_suffix l"
    using u by (simp add: dropWhile_append2 show_nat_digits)
  ultimately show ?thesis
    using assms by (simp add: css_parse_simple_def css_print_simple css_unit_suffix)
qed

lemma css_print_simple_no_space:
  assumes "css_simple l"
  shows "CHR '' '' \<notin> set (css_print l)"
proof -
  have "\<not> is_digit (CHR '' '')" by (simp add: is_digit_def)
  then have "CHR '' '' \<notin> set (show_nat (css_num l))" using show_nat_digits by blast
  moreover have "CHR '' '' \<notin> set (css_suffix l)" using css_suffix_shape [OF assms] by auto
  ultimately show ?thesis using assms by (simp add: css_print_simple)
qed

lemma css_print_simple_head:
  "css_simple l \<Longrightarrow> \<exists>c cs. css_print l = c # cs \<and> is_digit c"
proof -
  assume l: "css_simple l"
  obtain c cs where "show_nat (css_num l) = c # cs"
    using show_nat_nonempty by (cases "show_nat (css_num l)") auto
  moreover from this have "is_digit c"
    using show_nat_digits [of c "css_num l"] by simp
  ultimately show ?thesis using l by (simp add: css_print_simple)
qed

lemma split_minus_append:
  "CHR '' '' \<notin> set xs \<Longrightarrow> split_minus (xs @ '' - '' @ ys) = Some (xs, ys)"
  by (induction xs) auto

lemma strip_prefix_calc_digit:
  "is_digit c \<Longrightarrow> strip_prefix ''calc('' (c # cs) = None"
  by (auto simp: strip_prefix_def is_digit_def)

lemma strip_prefix_append [simp]: "strip_prefix p (p @ r) = Some r"
  by (simp add: strip_prefix_def)

lemma css_parse_print_simple:
  assumes "css_simple l"
  shows "css_parse (css_print l) = Some l"
proof -
  obtain c cs where "css_print l = c # cs" and "is_digit c"
    using css_print_simple_head [OF assms] by blast
  then have "strip_prefix ''calc('' (css_print l) = None"
    by (simp add: strip_prefix_calc_digit)
  then show ?thesis by (simp add: css_parse_def css_parse_simple_print [OF assms])
qed

lemma css_parse_print_calc:
  assumes "css_simple a" and "css_simple b"
  shows "css_parse (''calc('' @ css_print a @ '' - '' @ css_print b @ '')'') = Some (CalcSub a b)"
proof -
  let ?r = "css_print a @ '' - '' @ css_print b @ '')''"
  have prefix: "strip_prefix ''calc('' (''calc('' @ ?r) = Some ?r"
    by (rule strip_prefix_append)
  have split: "split_minus (css_print a @ '' - '' @ css_print b) = Some (css_print a, css_print b)"
    using css_print_simple_no_space [OF assms(1)] by (rule split_minus_append)
  have "butlast ?r = css_print a @ '' - '' @ css_print b"
    by (simp add: butlast_append)
  with split show ?thesis
    unfolding css_parse_def prefix
    using css_parse_simple_print [OF assms(1)] css_parse_simple_print [OF assms(2)]
    by simp
qed

lemma css_parse_print: "css_wf l \<Longrightarrow> css_parse (css_print l) = Some l"
proof (cases "css_simple l")
  case True
  then show ?thesis by (rule css_parse_print_simple)
next
  case False
  moreover assume "css_wf l"
  ultimately obtain a b where l: "l = CalcSub a b" and "css_simple a" "css_simple b"
    by (cases l) auto
  then show ?thesis
    by (simp only: l css_print.simps) (rule css_parse_print_calc)
qed

end
