(* ===== verification/Layout.thy ===== *)
theory Layout
  imports React_Elements CSS_Lengths
begin

text \<open>
  The page layout of \<open>src/src/app/(main)/layout.tsx\<close>: a full-viewport
  \<open>Stack\<close> holding the \<open>Header\<close>, given the local constant
  \<open>headerHeight = "72px"\<close>, and a body \<open>Stack\<close> of height
  \<open>calc(100vh - 72px)\<close> around the caller's \<open>children\<close>. The element tree
  is built for any header height string (\<open>layout_tree\<close>), and \<open>Layout\<close>
  applies it to the constant. The box model reads the lengths back from the
  \<open>sx\<close> props (the \<open>Header\<close>, whose source is not in the excerpt, draws a
  box as high as its \<open>height\<close> prop) and resolves them against a viewport.
\<close>

record 'c Props =
  children :: 'c

definition headerHeight :: string where
  "headerHeight = ''72px''"

definition Header_elem :: "string \<Rightarrow> 'c node" where
  "Header_elem height = jsx ''Header'' [(''height'', JStr height)] []"

definition outer_sx :: jsval where
  "outer_sx = JObj [(''width'', JStr ''100vw''), (''height'', JStr ''100vh'')]"

definition body_sx :: "string \<Rightarrow> jsval" where
  "body_sx hh = JObj [(''width'', JStr ''100%''), (''height'', JStr (''calc(100vh - '' @ hh @ '')''))]"

definition layout_tree :: "string \<Rightarrow> 'c \<Rightarrow> 'c node" where
  "layout_tree hh ch =
     jsx ''Stack'' [(''sx'', outer_sx)]
       [Header_elem hh,
        jsx ''Stack'' [(''sx'', body_sx hh)] [Slot ch]]"

definition Layout :: "'c Props \<Rightarrow> 'c node" where
  "Layout props = (let ch = children props in layout_tree headerHeight ch)"

subsection \<open>Boxes\<close>

definition declared_height :: "'c node \<Rightarrow> css_len option" where
  "declared_height n =
     (case n of
        Element t k ps cs \<Rightarrow>
          if t = ''Header'' then (case lookup_field ps ''height'' of JStr s \<Rightarrow> css_parse s | _ \<Rightarrow> None)
          else sx_length ps ''height''
      | Slot c \<Rightarrow> None)"

definition declared_width :: "'c node \<Rightarrow> css_len option" where
  "declared_width n = (case n of Element t k ps cs \<Rightarrow> sx_length ps ''width'' | Slot c \<Rightarrow> None)"

definition used_height :: "viewport \<Rightarrow> nat \<Rightarrow> 'c node \<Rightarrow> nat option" where
  "used_height vp base n = map_option (\<lambda>l. css_used (css_eval vp base l)) (declared_height n)"

definition used_width :: "viewport \<Rightarrow> nat \<Rightarrow> 'c node \<Rightarrow> nat option" where
  "used_width vp base n = map_option (\<lambda>l. css_used (css_eval vp base l)) (declared_width n)"

text \<open>
  The heights of a two-region page (the whole, the header, the body) and the
  widths of the whole and of the body; the whole is sized against the
  viewport, the regions against the whole.
\<close>

fun region_heights :: "viewport \<Rightarrow> 'c node \<Rightarrow> (nat \<times> nat \<times> nat) option" where
  "region_heights vp (Element t k ps [hdr, body]) =
     (case used_height vp (vp_height vp) (Element t k ps [hdr, body]) of
        None \<Rightarrow> None
      | Some H \<Rightarrow>
          (case (used_height vp H hdr, used_height vp H body) of
             (Some h, Some b) \<Rightarrow> Some (H, h, b)
           | _ \<Rightarrow> None))"
| "region_heights vp n = None"

fun region_widths :: "viewport \<Rightarrow> 'c node \<Rightarrow> (nat \<times> nat) option" where
  "region_widths vp (Element t k ps [hdr, body]) =
     (case used_width vp (vp_width vp) (Element t k ps [hdr, body]) of
        None \<Rightarrow> None
      | Some W \<Rightarrow> map_option (\<lambda>b. (W, b)) (used_width vp W body))"
| "region_widths vp n = None"

subsection \<open>Lemmas\<close>

lemma show_nat_100: "show_nat 100 = ''100''"
  by code_simp

lemma show_nat_72: "show_nat 72 = ''72''"
  by code_simp

lemma headerHeight_print: "headerHeight = css_print (Px 72)"
  by (simp add: headerHeight_def show_nat_72)

lemma css_parse_100vh [simp]: "css_parse ''100vh'' = Some (Vh 100)"
  using css_parse_print [of "Vh 100"] by (simp add: show_nat_100)

lemma css_parse_100vw [simp]: "css_parse ''100vw'' = Some (Vw 100)"
  using css_parse_print [of "Vw 100"] by (simp add: show_nat_100)

lemma css_parse_100pct [simp]: "css_parse ''100%'' = Some (Pct 100)"
  using css_parse_print [of "Pct 100"] by (simp add: show_nat_100)

lemma body_height_text:
  "''calc(100vh - '' @ css_print (Px h) @ '')'' = css_print (CalcSub (Vh 100) (Px h))"
  by (simp add: show_nat_100)

lemma body_sx_print:
  "body_sx (css_print (Px h)) =
     JObj [(''width'', JStr ''100%''), (''height'', JStr (css_print (CalcSub (Vh 100) (Px h))))]"
  unfolding body_sx_def body_height_text ..

lemma css_parse_header_height [simp]: "css_parse (css_print (Px h)) = Some (Px h)"
  by (rule css_parse_print) simp

lemma layout_heights_px:
  "region_heights vp (layout_tree (css_print (Px h)) c) =
     Some (vp_height vp, h, nat (int (vp_height vp) - int h))"
  unfolding layout_tree_def
  by (simp add: jsx_def used_height_def declared_height_def sx_length_def outer_sx_def body_sx_print
                Header_elem_def css_used_def js_simps css_parse_print del: css_print.simps)

lemma layout_widths:
  "region_widths vp (layout_tree hh c) = Some (vp_width vp, vp_width vp)"
  by (simp add: layout_tree_def jsx_def used_width_def declared_width_def sx_length_def
                outer_sx_def body_sx_def css_used_def js_simps)

lemma slots_layout_tree: "slots (layout_tree hh c) = [c]"
  by (simp add: layout_tree_def jsx_def Header_elem_def)

lemma Layout_region_heights:
  "region_heights vp (Layout p) = Some (vp_height vp, 72, nat (int (vp_height vp) - 72))"
  by (simp add: Layout_def headerHeight_print layout_heights_px del: css_print.simps)

subsection \<open>Properties\<close>

text \<open>
  C8. With the code's header height of 72px, on any viewport at least 72px
  high, the page is exactly as high as the viewport, the header is 72px high,
  and header and body together fill the page.
\<close>

theorem layout_fills_viewport:
  assumes "72 \<le> vp_height vp"
  shows "region_heights vp (Layout p) = Some (vp_height vp, 72, vp_height vp - 72)"
  using assms by (simp add: Layout_region_heights)

theorem layout_fills_viewport_witness:
  "region_heights \<lparr>vp_width = 1024, vp_height = 768\<rparr> (Layout \<lparr>children = (0::nat)\<rparr>) = Some (768, 72, 696)"
  using layout_fills_viewport [of "\<lparr>vp_width = 1024, vp_height = 768\<rparr>" "\<lparr>children = (0::nat)\<rparr>"]
  by simp

text \<open>
  C9. For any header height of \<open>h\<close> pixels no higher than the viewport, the
  layout's header is \<open>h\<close> high and its body takes the rest of the viewport.
\<close>

theorem layout_any_header_height:
  assumes "h \<le> vp_height vp"
  shows "region_heights vp (layout_tree (css_print (Px h)) c) = Some (vp_height vp, h, vp_height vp - h)"
  using assms by (simp add: layout_heights_px del: css_print.simps)

theorem layout_any_header_height_witness:
  "region_heights \<lparr>vp_width = 800, vp_height = 600\<rparr> (layout_tree (css_print (Px 100)) (0::nat)) =
     Some (600, 100, 500)"
  using layout_any_header_height [of 100 "\<lparr>vp_width = 800, vp_height = 600\<rparr>" "0::nat"]
  by (simp del: css_print.simps)

text \<open>
  C10. The page and its body region both span the full viewport width.
\<close>

theorem layout_full_width: "region_widths vp (Layout p) = Some (vp_width vp, vp_width vp)"
  by (simp add: Layout_def layout_widths)

text \<open>
  C11. The layout places the supplied children unchanged, exactly once, and
  nowhere but in its tree's single slot.
\<close>

theorem layout_children_once: "slots (Layout p) = [children p]"
  by (simp add: Layout_def slots_layout_tree)

end
