(* ===== verification/Retry.thy ===== *)
theory Retry
  imports Query
begin

text \<open>
  How the query behind \<open>useAspidaQuery\<close> settles a fetch: react-query's
  retryer, with the library's defaults (the code sets no options): a failed
  attempt is retried while fewer than \<open>retry = 3\<close> failures have occurred,
  after a back-off of \<open>min(1000 * 2^failureCount, 30000)\<close> milliseconds, and
  the query stays pending meanwhile. The server is a function from the attempt
  number to its outcome: \<open>Some\<close> body, or \<open>None\<close> for a failed request. The
  loop returns the event that settles the query, the number of attempts and
  the total back-off.
\<close>

type_synonym server = "nat \<Rightarrow> jsval option"

definition retry_limit :: nat where
  "retry_limit = 3"

definition retry_delay :: "nat \<Rightarrow> nat" where
  "retry_delay failures = min (1000 * 2 ^ failures) 30000"

function fetch_with_retry :: "server \<Rightarrow> nat \<Rightarrow> nat \<Rightarrow> qevent \<times> nat \<times> nat" where
  "fetch_with_retry srv failures waited =
     (case srv failures of
        Some v \<Rightarrow> (Respond v, Suc failures, waited)
      | None \<Rightarrow>
          if failures < retry_limit
          then fetch_with_retry srv (Suc failures) (waited + retry_delay failures)
          else (Fail, Suc failures, waited))"
  by pat_completeness auto
termination
  by (relation "measure (\<lambda>(srv, failures, waited). retry_limit - failures)") (auto simp: retry_limit_def)

declare fetch_with_retry.simps [simp del]

subsection \<open>Lemmas\<close>

text \<open>The loop from any failure count: it stops within the remaining budget of
  attempts, it waits exactly the delays of the failures it retries, and it
  fails only when every remaining attempt failed.\<close>

lemma fetch_with_retry_shape:
  "failures \<le> retry_limit \<Longrightarrow> fetch_with_retry srv failures waited = (e, n, t) \<Longrightarrow>
     failures < n \<and> n \<le> Suc retry_limit \<and> t = waited + (\<Sum>i = failures..<n - 1. retry_delay i) \<and>
     (e = Fail \<longleftrightarrow> (\<forall>i \<in> {failures..<n}. srv i = None)) \<and>
     (\<forall>v. e = Respond v \<longrightarrow> srv (n - 1) = Some v)"
proof (induction srv failures waited arbitrary: e n t rule: fetch_with_retry.induct)
  case (1 srv failures waited)
  show ?case
  proof (cases "srv failures")
    case (Some v)
    with "1.prems" show ?thesis by (auto simp: fetch_with_retry.simps [of srv failures waited])
  next
    case None
    show ?thesis
    proof (cases "failures < retry_limit")
      case True
      with None "1.prems" have rec: "fetch_with_retry srv (Suc failures) (waited + retry_delay failures) = (e, n, t)"
        by (simp add: fetch_with_retry.simps [of srv failures waited])
      from "1.IH" [OF None True _ rec] True
      have ih: "Suc failures < n \<and> n \<le> Suc retry_limit \<and>
          t = waited + retry_delay failures + (\<Sum>i = Suc failures..<n - 1. retry_delay i) \<and>
          (e = Fail \<longleftrightarrow> (\<forall>i \<in> {Suc failures..<n}. srv i = None)) \<and>
          (\<forall>v. e = Respond v \<longrightarrow> srv (n - 1) = Some v)"
        by simp
      then have "Suc failures < n" by blast
      then have "failures < n - 1" by arith
      then have "(\<Sum>i = failures..<n - 1. retry_delay i) =
                   retry_delay failures + (\<Sum>i = Suc failures..<n - 1. retry_delay i)"
        by (rule sum.atLeast_Suc_lessThan)
      moreover have "(\<forall>i \<in> {failures..<n}. srv i = None) \<longleftrightarrow> (\<forall>i \<in> {Suc failures..<n}. srv i = None)"
        using None ih by (auto simp: le_less Suc_le_eq)
      ultimately show ?thesis using ih by simp
    next
      case False
      with None have "fetch_with_retry srv failures waited = (Fail, Suc failures, waited)"
        by (simp add: fetch_with_retry.simps [of srv failures waited])
      with "1.prems" have "e = Fail" "n = Suc failures" "t = waited" by simp_all
      with None "1.prems" show ?thesis by (auto simp: le_less Suc_le_eq)
    qed
  qed
qed

lemma retry_delays_bound: "m \<le> retry_limit \<Longrightarrow> (\<Sum>i = 0..<m. retry_delay i) \<le> 7000"
proof -
  assume "m \<le> retry_limit"
  then have "(\<Sum>i = 0..<m. retry_delay i) \<le> (\<Sum>i = 0..<retry_limit. retry_delay i)"
    by (intro sum_mono2) auto
  also have "\<dots> = 7000"
    by (simp add: retry_limit_def retry_delay_def numeral_3_eq_3)
  finally show ?thesis .
qed

lemma first_fetch_shape:
  assumes "fetch_with_retry srv 0 0 = (e, n, t)"
  shows "1 \<le> n \<and> n \<le> 4 \<and> t \<le> 7000 \<and> (e = Fail \<longleftrightarrow> (\<forall>i < n. srv i = None))"
proof -
  have "0 \<le> retry_limit" by simp
  from fetch_with_retry_shape [OF this assms] have
    n: "0 < n" "n \<le> Suc retry_limit" and t: "t = (\<Sum>i = 0..<n - 1. retry_delay i)"
    and f: "e = Fail \<longleftrightarrow> (\<forall>i \<in> {0..<n}. srv i = None)"
    by simp_all
  from n have "n - 1 \<le> retry_limit" by simp
  then have "t \<le> 7000" unfolding t by (rule retry_delays_bound)
  with n f show ?thesis by (auto simp: retry_limit_def)
qed

end
