(* ===== verification/Json.thy ===== *)
theory Json
  imports JS_Runtime
begin

text \<open>
  \<open>JSON.parse\<close> as axios applies it to a response body, over the value model
  of \<open>JS_Runtime\<close>. The parser follows the JSON grammar (RFC 8259) character
  by character: \<open>jp_value\<close>, \<open>jp_elems\<close> and \<open>jp_members\<close> are mutually
  recursive, with the readers \<open>jp_string\<close> and \<open>jp_number\<close> for the tokens.
  An object literal is built as \<open>JSON.parse\<close> builds it: each member is a
  \<open>CreateDataProperty\<close> (a repeated key keeps its first position and takes
  the last value), and the object's own keys enumerate array indices first,
  in ascending order, then the other keys in creation order.

  The result is \<open>Inl Syntax\<close> exactly where \<open>JSON.parse\<close> throws a
  \<open>SyntaxError\<close>, and \<open>Inl Unrepresentable\<close> where the input leaves the value
  model before any syntax error is seen: a number with a fraction or an
  exponent, an integer beyond \<open>2^53\<close> (a double that is no longer exact), or a
  \<open>\u\<close> escape above code 255 (the model's characters are 8-bit). Nothing
  is claimed of the second kind.

  \<open>json_stringify\<close> is \<open>JSON.stringify\<close> on the values it can print; it is the
  encoder a server is taken to use, and the parser inverts it on well-formed
  values.
\<close>

datatype json_error = Syntax | Unrepresentable

type_synonym 'a jparse = "json_error + ('a \<times> string)"

subsection \<open>Characters and tokens\<close>

definition json_ws :: "char \<Rightarrow> bool" where
  "json_ws c \<longleftrightarrow> c \<in> set [CHR '' '', CHR 0x09, CHR 0x0A, CHR 0x0D]"

definition skip_ws :: "string \<Rightarrow> string" where
  "skip_ws s = dropWhile json_ws s"

definition quote_char :: char where
  "quote_char = CHR 0x22"

definition backslash :: char where
  "backslash = CHR 0x5C"

text \<open>The one-character escapes after a backslash, and their meaning.\<close>

definition json_unescape :: "char \<Rightarrow> char option" where
  "json_unescape e =
     map_of [(quote_char, quote_char), (backslash, backslash), (CHR ''/'', CHR ''/''),
             (CHR ''b'', CHR 0x08), (CHR ''f'', CHR 0x0C), (CHR ''n'', CHR 0x0A),
             (CHR ''r'', CHR 0x0D), (CHR ''t'', CHR 0x09)] e"

definition hex_val :: "char \<Rightarrow> nat option" where
  "hex_val c =
     (let n = (of_char c :: nat) in
      if 48 \<le> n \<and> n \<le> 57 then Some (n - 48)
      else if 97 \<le> n \<and> n \<le> 102 then Some (n - 87)
      else if 65 \<le> n \<and> n \<le> 70 then Some (n - 55)
      else None)"

fun hex4 :: "string \<Rightarrow> nat option" where
  "hex4 [a, b, c, d] =
     (case (hex_val a, hex_val b, hex_val c, hex_val d) of
        (Some w, Some x, Some y, Some z) \<Rightarrow> Some (((w * 16 + x) * 16 + y) * 16 + z)
      | _ \<Rightarrow> None)"
| "hex4 s = None"

definition map_jp :: "('a \<Rightarrow> 'b) \<Rightarrow> 'a jparse \<Rightarrow> 'b jparse" where
  "map_jp f r = (case r of Inl e \<Rightarrow> Inl e | Inr (x, rest) \<Rightarrow> Inr (f x, rest))"

text \<open>The characters of a string literal after its opening quote, up to and
  including the closing quote. Control characters must be escaped.\<close>

function jp_string :: "string \<Rightarrow> string jparse" where
  "jp_string s =
     (case s of
        [] \<Rightarrow> Inl Syntax
      | c # cs \<Rightarrow>
          if c = quote_char then Inr ([], cs)
          else if c = backslash then
            (case cs of
               [] \<Rightarrow> Inl Syntax
             | e # r \<Rightarrow>
                 if e = CHR ''u'' then
                   (case hex4 (take 4 r) of
                      None \<Rightarrow> Inl Syntax
                    | Some n \<Rightarrow>
                        if n < 256 then map_jp (Cons (char_of n)) (jp_string (drop 4 r))
                        else Inl Unrepresentable)
                 else
                   (case json_unescape e of
                      None \<Rightarrow> Inl Syntax
                    | Some d \<Rightarrow> map_jp (Cons d) (jp_string r)))
          else if (of_char c :: nat) < 32 then Inl Syntax
          else map_jp (Cons c) (jp_string cs))"
  by pat_completeness auto
termination
  by (relation "measure length") auto

declare jp_string.simps [simp del]

text \<open>A number: an optional minus, then \<open>0\<close> or digits not starting with
  \<open>0\<close>. A fraction or an exponent after it, or a magnitude above \<open>2^53\<close>, is
  outside the model.\<close>

definition max_safe :: nat where
  "max_safe = 2 ^ 53"

definition jp_number :: "string \<Rightarrow> jsval jparse" where
  "jp_number s =
     (let neg = (s \<noteq> [] \<and> hd s = CHR ''-'');
          t = (if neg then tl s else s);
          ds = takeWhile is_digit t;
          r = dropWhile is_digit t
      in if ds = [] \<or> (hd ds = CHR ''0'' \<and> 2 \<le> length ds) then Inl Syntax
         else if r \<noteq> [] \<and> hd r \<in> set [CHR ''.'', CHR ''e'', CHR ''E''] then Inl Unrepresentable
         else (case parse_nat ds of
                 None \<Rightarrow> Inl Syntax
               | Some n \<Rightarrow>
                   if max_safe < n then Inl Unrepresentable
                   else Inr (JNum (if neg then - int n else int n), r)))"

definition jp_literal :: "string \<Rightarrow> jsval \<Rightarrow> string \<Rightarrow> jsval jparse" where
  "jp_literal w v s = (if take (length w) s = w then Inr (v, drop (length w) s) else Inl Syntax)"

subsection \<open>Objects as JSON.parse creates them\<close>

text \<open>\<open>CreateDataProperty\<close> on an object whose own keys are listed in creation
  order: an existing key keeps its place and takes the new value.\<close>

definition obj_put :: "(string \<times> jsval) list \<Rightarrow> string \<times> jsval \<Rightarrow> (string \<times> jsval) list" where
  "obj_put fs kv =
     (if fst kv \<in> fst ` set fs then map (\<lambda>(k, v). if k = fst kv then kv else (k, v)) fs
      else fs @ [kv])"

definition index_key :: "string \<Rightarrow> bool" where
  "index_key k \<longleftrightarrow> (case array_index k of None \<Rightarrow> False | Some n \<Rightarrow> n < 2 ^ 32 - 1)"

definition index_of_key :: "string \<Rightarrow> nat" where
  "index_of_key k = (case array_index k of None \<Rightarrow> 0 | Some n \<Rightarrow> n)"

text \<open>The order in which an ordinary object enumerates its own string keys.\<close>

definition own_keys_order :: "(string \<times> jsval) list \<Rightarrow> (string \<times> jsval) list" where
  "own_keys_order fs =
     sort_key (\<lambda>kv. index_of_key (fst kv)) (filter (\<lambda>kv. index_key (fst kv)) fs) @
     filter (\<lambda>kv. \<not> index_key (fst kv)) fs"

definition js_object :: "(string \<times> jsval) list \<Rightarrow> (string \<times> jsval) list" where
  "js_object members = own_keys_order (foldl obj_put [] members)"

subsection \<open>The parser\<close>

lemma skip_ws_shorter: "2 * length (skip_ws s) < Suc (2 * length s)"
  using length_dropWhile_le [of json_ws s] unfolding skip_ws_def by linarith

text \<open>Each parser starts at the first character of its construct (white space
  before it already skipped) and returns the value and the rest of the input.
  \<open>jp_elems\<close> reads the elements of an array after its \<open>[\<close>, \<open>jp_members\<close> the
  members of an object after its \<open>{\<close>. Where the recursion continues on what a
  value left over, a length guard makes the descent explicit;
  \<open>jp_consumes\<close> below shows that the guards never fail.\<close>

function jp_value :: "string \<Rightarrow> jsval jparse"
  and jp_elems :: "string \<Rightarrow> jsval list jparse"
  and jp_members :: "string \<Rightarrow> (string \<times> jsval) list jparse"
where
  "jp_value s =
     (case s of
        [] \<Rightarrow> Inl Syntax
      | c # cs \<Rightarrow>
          if c = CHR ''n'' then jp_literal ''ull'' JNull cs
          else if c = CHR ''t'' then jp_literal ''rue'' (JBool True) cs
          else if c = CHR ''f'' then jp_literal ''alse'' (JBool False) cs
          else if c = quote_char then map_jp JStr (jp_string cs)
          else if c = CHR ''-'' \<or> is_digit c then jp_number s
          else if c = CHR ''['' then
            (let t = skip_ws cs in
             if t \<noteq> [] \<and> hd t = CHR '']'' then Inr (JArr [], tl t)
             else map_jp JArr (jp_elems t))
          else if c = CHR ''{'' then
            (let t = skip_ws cs in
             if t \<noteq> [] \<and> hd t = CHR ''}'' then Inr (JObj [], tl t)
             else map_jp (\<lambda>ms. JObj (js_object ms)) (jp_members t))
          else Inl Syntax)"
| "jp_elems s =
     (case jp_value s of
        Inl e \<Rightarrow> Inl e
      | Inr (v, r) \<Rightarrow>
          (let t = skip_ws r in
           if t = [] then Inl Syntax
           else if hd t = CHR '','' then
             (let u = skip_ws (tl t) in
              if length u < length s then map_jp (Cons v) (jp_elems u) else Inl Syntax)
           else if hd t = CHR '']'' then Inr ([v], tl t)
           else Inl Syntax))"
| "jp_members s =
     (if s = [] \<or> hd s \<noteq> quote_char then Inl Syntax
      else
        (case jp_string (tl s) of
           Inl e \<Rightarrow> Inl e
         | Inr (k, r) \<Rightarrow>
             (let t = skip_ws r in
              if t = [] \<or> hd t \<noteq> CHR '':'' then Inl Syntax
              else
                (let u = skip_ws (tl t) in
                 if length u < length s then
                   (case jp_value u of
                      Inl e \<Rightarrow> Inl e
                    | Inr (v, r') \<Rightarrow>
                        (let w = skip_ws r' in
                         if w = [] then Inl Syntax
                         else if hd w = CHR '','' then
                           (let x = skip_ws (tl w) in
                            if length x < length s then map_jp (Cons (k, v)) (jp_members x)
                            else Inl Syntax)
                         else if hd w = CHR ''}'' then Inr ([(k, v)], tl w)
                         else Inl Syntax))
                 else Inl Syntax))))"
  by pat_completeness auto
termination
  by (relation "measure (\<lambda>x. case x of Inl s \<Rightarrow> 2 * length s | Inr (Inl s) \<Rightarrow> Suc (2 * length s)
                                  | Inr (Inr s) \<Rightarrow> Suc (2 * length s))")
     (auto simp: skip_ws_shorter)

declare jp_value.simps [simp del] jp_elems.simps [simp del] jp_members.simps [simp del]

definition json_parse :: "string \<Rightarrow> json_error + jsval" where
  "json_parse s =
     (case jp_value (skip_ws s) of
        Inl e \<Rightarrow> Inl e
      | Inr (v, r) \<Rightarrow> if skip_ws r = [] then Inr v else Inl Syntax)"

subsection \<open>JSON.stringify\<close>

definition hex_digit :: "nat \<Rightarrow> char" where
  "hex_digit d = (if d < 10 then digit_char d else char_of (87 + d))"

text \<open>\<open>QuoteJSONString\<close>: the short escapes, \<open>\u00xx\<close> with lower-case hex
  digits for the other control characters, every other character as is.\<close>

definition json_esc :: "char \<Rightarrow> string" where
  "json_esc c =
     (if c = quote_char then [backslash, quote_char]
      else if c = backslash then [backslash, backslash]
      else if c = CHR 0x08 then [backslash, CHR ''b'']
      else if c = CHR 0x0C then [backslash, CHR ''f'']
      else if c = CHR 0x0A then [backslash, CHR ''n'']
      else if c = CHR 0x0D then [backslash, CHR ''r'']
      else if c = CHR 0x09 then [backslash, CHR ''t'']
      else if (of_char c :: nat) < 32
      then [backslash, CHR ''u'', CHR ''0'', CHR ''0'',
            hex_digit (of_char c div 16), hex_digit (of_char c mod 16)]
      else [c])"

definition json_quote :: "string \<Rightarrow> string" where
  "json_quote s = quote_char # concat (map json_esc s) @ [quote_char]"

text \<open>\<open>JSON.stringify\<close> without indentation. An \<open>undefined\<close> member of an
  object is skipped and an \<open>undefined\<close> element of an array prints as \<open>null\<close>;
  at the top level \<open>JSON.stringify(undefined)\<close> is no string at all, which
  the well-formed values below exclude.\<close>

fun json_print :: "jsval \<Rightarrow> string" where
  "json_print JUndef = ''null''"
| "json_print JNull = ''null''"
| "json_print (JBool b) = (if b then ''true'' else ''false'')"
| "json_print (JNum i) = show_int i"
| "json_print (JStr s) = json_quote s"
| "json_print (JArr xs) = CHR ''['' # join_comma (map json_print xs) @ '']''"
| "json_print (JObj fs) =
     CHR ''{'' # join_comma (map (\<lambda>(k, v). json_quote k @ CHR '':'' # json_print v)
                                 (filter (\<lambda>(k, v). v \<noteq> JUndef) fs)) @ ''}''"

text \<open>The values \<open>JSON.parse\<close> can produce: no \<open>undefined\<close>, integers that
  are exact doubles, objects without repeated keys and with their keys in
  the order an object enumerates them.\<close>

fun json_wf :: "jsval \<Rightarrow> bool" where
  "json_wf JUndef = False"
| "json_wf (JNum i) = (\<bar>i\<bar> \<le> int max_safe)"
| "json_wf (JArr xs) = list_all json_wf xs"
| "json_wf (JObj fs) =
     (distinct (map fst fs) \<and> own_keys_order fs = fs \<and> list_all (\<lambda>kv. json_wf (snd kv)) fs)"
| "json_wf v = True"

text \<open>What may follow a value inside a document: its end, or a separator or
  closing bracket. None of these continues a number or a literal.\<close>

definition json_stop :: "string \<Rightarrow> bool" where
  "json_stop r \<longleftrightarrow> r = [] \<or> hd r \<in> set [CHR '','', CHR '']'', CHR ''}'']"

subsection \<open>Lemmas: tokens\<close>

lemma map_jp_simps [simp]:
  "map_jp f (Inl e) = Inl e"
  "map_jp f (Inr (x, r)) = Inr (f x, r)"
  by (simp_all add: map_jp_def)

lemma hex_val_hex_digit [simp]: "d < 16 \<Longrightarrow> hex_val (hex_digit d) = Some d"
  by (auto simp: hex_val_def hex_digit_def digit_char_def)

lemma hex_val_zero [simp]: "hex_val (CHR ''0'') = Some 0"
  by (simp add: hex_val_def)

lemma jp_string_Cons:
  "jp_string (c # cs) =
     (if c = quote_char then Inr ([], cs)
      else if c = backslash then
        (case cs of
           [] \<Rightarrow> Inl Syntax
         | e # r \<Rightarrow>
             if e = CHR ''u'' then
               (case hex4 (take 4 r) of
                  None \<Rightarrow> Inl Syntax
                | Some n \<Rightarrow> if n < 256 then map_jp (Cons (char_of n)) (jp_string (drop 4 r)) else Inl Unrepresentable)
             else (case json_unescape e of None \<Rightarrow> Inl Syntax | Some d \<Rightarrow> map_jp (Cons d) (jp_string r)))
      else if (of_char c :: nat) < 32 then Inl Syntax
      else map_jp (Cons c) (jp_string cs))"
  by (subst jp_string.simps) simp

lemma jp_string_esc: "jp_string (json_esc c @ r) = map_jp (Cons c) (jp_string r)"
proof -
  have ctrl: "jp_string ([backslash, CHR ''u'', CHR ''0'', CHR ''0'',
                hex_digit (of_char c div 16), hex_digit (of_char c mod 16)] @ r) = map_jp (Cons c) (jp_string r)"
    if "(of_char c :: nat) < 32"
  proof -
    have "(of_char c :: nat) div 16 < 16" "(of_char c :: nat) mod 16 < 16" using that by simp_all
    then have "hex4 [CHR ''0'', CHR ''0'', hex_digit (of_char c div 16), hex_digit (of_char c mod 16)] =
            Some (of_char c)"
      by (simp add: hex_val_zero)
    with that show ?thesis by (simp add: jp_string_Cons backslash_def quote_char_def)
  qed
  show ?thesis
    by (simp add: json_esc_def ctrl jp_string_Cons json_unescape_def quote_char_def backslash_def)
qed

lemma jp_string_quote: "jp_string (concat (map json_esc s) @ quote_char # r) = Inr (s, r)"
  by (induction s) (simp_all add: jp_string_esc jp_string_Cons)

lemma json_stop_not_digit:
  "json_stop r \<Longrightarrow> takeWhile is_digit r = [] \<and> dropWhile is_digit r = r"
  by (cases r) (auto simp: json_stop_def is_digit_def)

lemma show_nat_no_leading_zero: "2 \<le> length (show_nat n) \<Longrightarrow> hd (show_nat n) \<noteq> CHR ''0''"
proof (induction n rule: show_nat.induct)
  case (1 n)
  show ?case
  proof (cases "n < 10")
    case True
    with "1.prems" show ?thesis by (simp add: show_nat.simps [of n])
  next
    case False
    then have sn: "show_nat n = show_nat (n div 10) @ [digit_char (n mod 10)]"
      by (simp add: show_nat.simps [of n])
    show ?thesis
    proof (cases "2 \<le> length (show_nat (n div 10))")
      case True
      with "1.IH" False sn show ?thesis by simp
    next
      case short: False
      have "0 < length (show_nat (n div 10))" by simp
      with short have "length (show_nat (n div 10)) = 1" by arith
      then have "n div 10 < 10"
        by (cases "n div 10 < 10") (auto simp: show_nat.simps [of "n div 10"])
      then have "show_nat (n div 10) = [digit_char (n div 10)]" by (simp add: show_nat.simps)
      then have "(of_char (hd (show_nat n)) :: nat) = 48 + n div 10" using sn \<open>n div 10 < 10\<close> by simp
      moreover have "0 < n div 10" using False by simp
      moreover have "(of_char (CHR ''0'') :: nat) = 48" by simp
      ultimately show ?thesis by auto
    qed
  qed
qed

lemma takeWhile_show_nat:
  "json_stop r \<Longrightarrow> takeWhile is_digit (show_nat n @ r) = show_nat n \<and> dropWhile is_digit (show_nat n @ r) = r"
  using show_nat_digits json_stop_not_digit by (simp add: takeWhile_append2 dropWhile_append2)

lemma jp_number_show_nat:
  assumes "json_stop r" and "m \<le> max_safe" and "t = show_nat m @ r"
  shows "takeWhile is_digit t = show_nat m \<and> dropWhile is_digit t = r \<and>
         \<not> (show_nat m = [] \<or> (hd (show_nat m) = CHR ''0'' \<and> 2 \<le> length (show_nat m))) \<and>
         \<not> (r \<noteq> [] \<and> hd r \<in> set [CHR ''.'', CHR ''e'', CHR ''E''])"
  using assms takeWhile_show_nat show_nat_no_leading_zero
  by (auto simp: json_stop_def)

lemma jp_number_show_int:
  assumes "\<bar>i\<bar> \<le> int max_safe" and "json_stop r"
  shows "jp_number (show_int i @ r) = Inr (JNum i, r)"
proof (cases "i < 0")
  case True
  let ?m = "nat (- i)"
  have m: "?m \<le> max_safe" using assms(1) True by simp
  from jp_number_show_nat [OF assms(2) m refl] True m show ?thesis
    by (simp add: jp_number_def show_int_def Let_def not_less)
next
  case False
  let ?m = "nat i"
  have "?m \<le> max_safe" using assms(1) False by simp
  moreover have "show_nat ?m \<noteq> [] \<and> hd (show_nat ?m) \<noteq> CHR ''-''"
  proof -
    obtain c cs where "show_nat ?m = c # cs" "is_digit c" using show_nat_head_digit by blast
    then show ?thesis by (auto simp: is_digit_def)
  qed
  ultimately show ?thesis
    using jp_number_show_nat [OF assms(2) \<open>?m \<le> max_safe\<close> refl] False
    by (simp add: jp_number_def show_int_def Let_def not_less)
qed

subsection \<open>Lemmas: documents\<close>

lemma quote_char_simps [simp]:
  "quote_char \<noteq> CHR ''n''" "quote_char \<noteq> CHR ''t''" "quote_char \<noteq> CHR ''f''"
  "quote_char \<noteq> CHR ''-''" "\<not> is_digit quote_char" "quote_char \<noteq> CHR ''[''"
  "quote_char \<noteq> CHR ''{''" "quote_char \<noteq> CHR '']''" "quote_char \<noteq> CHR ''}''"
  "quote_char \<noteq> CHR '',''" "\<not> json_ws quote_char"
  "CHR ''['' \<noteq> quote_char" "CHR ''{'' \<noteq> quote_char" "CHR '']'' \<noteq> quote_char" "CHR ''}'' \<noteq> quote_char"
  by (simp_all add: quote_char_def is_digit_def json_ws_def)

lemma bracket_not_digit [simp]:
  "\<not> is_digit CHR ''['' " "\<not> is_digit CHR ''{''" "\<not> is_digit CHR '']''" "\<not> is_digit CHR ''}''"
  by (simp_all add: is_digit_def)

lemma skip_ws_Cons [simp]: "\<not> json_ws c \<Longrightarrow> skip_ws (c # cs) = c # cs"
  by (simp add: skip_ws_def)

lemma show_int_head: "\<exists>c cs. show_int i = c # cs \<and> (c = CHR ''-'' \<or> is_digit c)"
  using show_nat_head_digit [of "nat i"] show_nat_head_digit [of "nat (- i)"]
  by (auto simp: show_int_def)

text \<open>A printed value starts with a character that opens a value: never white
  space, a separator or a closing bracket.\<close>

lemma json_print_head:
  "\<exists>c cs. json_print v = c # cs \<and> \<not> json_ws c \<and> c \<notin> set [CHR '','', CHR '']'', CHR ''}'']"
proof (cases v)
  case (JNum i)
  then show ?thesis using show_int_head [of i] by (auto simp: json_ws_def is_digit_def)
qed (simp_all add: json_ws_def json_quote_def quote_char_def)

lemma skip_ws_print [simp]: "skip_ws (json_print v @ r) = json_print v @ r"
  using json_print_head [of v] by auto

lemma json_stop_simps [simp]:
  "json_stop []" "json_stop (CHR '','' # r)" "json_stop (CHR '']'' # r)" "json_stop (CHR ''}'' # r)"
  by (simp_all add: json_stop_def)

lemma jp_elems_print:
  assumes "\<And>x r. x \<in> set xs \<Longrightarrow> json_stop r \<Longrightarrow> jp_value (json_print x @ r) = Inr (x, r)"
    and "xs \<noteq> []"
  shows "jp_elems (join_comma (map json_print xs) @ CHR '']'' # r) = Inr (xs, r)"
  using assms
proof (induction xs rule: induct_list012)
  case (2 x)
  then have "jp_value (json_print x @ CHR '']'' # r) = Inr (x, CHR '']'' # r)" by simp
  then show ?case by (subst jp_elems.simps) (simp add: json_ws_def)
next
  case (3 x y zs)
  let ?rest = "join_comma (map json_print (y # zs)) @ CHR '']'' # r"
  have "jp_value (json_print x @ CHR '','' # ?rest) = Inr (x, CHR '','' # ?rest)"
    using "3.prems"(1) by simp
  moreover have "jp_elems ?rest = Inr (y # zs, r)" using "3.IH"(2) "3.prems"(1) by simp
  moreover have "skip_ws ?rest = ?rest" by (cases zs) simp_all
  ultimately show ?case by (subst jp_elems.simps) (simp add: json_ws_def)
qed simp

lemma jp_members_print:
  assumes "\<And>k v r. (k, v) \<in> set fs \<Longrightarrow> json_stop r \<Longrightarrow> jp_value (json_print v @ r) = Inr (v, r)"
    and "fs \<noteq> []"
  shows "jp_members (join_comma (map (\<lambda>(k, v). json_quote k @ CHR '':'' # json_print v) fs) @ CHR ''}'' # r) =
           Inr (fs, r)"
  using assms
proof (induction fs rule: induct_list012)
  case (2 kv)
  obtain k v where kv: "kv = (k, v)" by (cases kv)
  have "jp_value (json_print v @ CHR ''}'' # r) = Inr (v, CHR ''}'' # r)" using "2.prems"(1) kv by simp
  with kv show ?case
    by (subst jp_members.simps) (simp add: json_quote_def jp_string_quote json_ws_def)
next
  case (3 kv kv' zs)
  obtain k v where kv: "kv = (k, v)" by (cases kv)
  let ?rest = "join_comma (map (\<lambda>(k, v). json_quote k @ CHR '':'' # json_print v) (kv' # zs)) @ CHR ''}'' # r"
  have "jp_value (json_print v @ CHR '','' # ?rest) = Inr (v, CHR '','' # ?rest)"
    using "3.prems"(1) [of k v] kv by simp
  moreover have "jp_members ?rest = Inr (kv' # zs, r)"
    by (rule "3.IH"(2)) (auto intro: "3.prems"(1))
  moreover have "skip_ws ?rest = ?rest"
    by (cases kv'; cases zs) (simp_all add: json_quote_def)
  ultimately show ?case using kv
    by (subst jp_members.simps) (simp add: json_quote_def jp_string_quote json_ws_def)
qed simp

lemma foldl_obj_put: "distinct (map fst (acc @ fs)) \<Longrightarrow> foldl obj_put acc fs = acc @ fs"
  by (induction fs arbitrary: acc) (auto simp: obj_put_def)

lemma js_object_ordered: "distinct (map fst fs) \<Longrightarrow> own_keys_order fs = fs \<Longrightarrow> js_object fs = fs"
  using foldl_obj_put [of "[]" fs] by (simp add: js_object_def)

lemma join_comma_hd: "xs \<noteq> [] \<Longrightarrow> \<exists>rest. join_comma (map f xs) @ r = f (hd xs) @ rest"
proof -
  assume "xs \<noteq> []"
  then obtain x ys where "xs = x # ys" by (cases xs) auto
  then show ?thesis by (cases ys) auto
qed

lemma jp_value_number: "c = CHR ''-'' \<or> is_digit c \<Longrightarrow> jp_value (c # cs) = jp_number (c # cs)"
  by (subst jp_value.simps) (auto simp: is_digit_def quote_char_def)

lemma jp_value_print: "json_wf v \<Longrightarrow> json_stop r \<Longrightarrow> jp_value (json_print v @ r) = Inr (v, r)"
proof (induction v arbitrary: r)
  case JNull
  show ?case by (subst jp_value.simps) (simp add: jp_literal_def)
next
  case (JBool b)
  show ?case by (cases b) (subst jp_value.simps, simp add: jp_literal_def)+
next
  case (JNum i)
  obtain c cs where "show_int i = c # cs" "c = CHR ''-'' \<or> is_digit c" using show_int_head by blast
  with JNum.prems show ?case using jp_number_show_int [of i r] jp_value_number [of c "cs @ r"] by simp
next
  case (JStr s)
  show ?case by (subst jp_value.simps) (simp add: json_quote_def jp_string_quote)
next
  case (JArr xs)
  show ?case
  proof (cases "xs = []")
    case True
    then show ?thesis by (subst jp_value.simps) (simp add: json_ws_def)
  next
    case False
    have elems: "jp_elems (join_comma (map json_print xs) @ CHR '']'' # r) = Inr (xs, r)"
      using JArr.IH JArr.prems(1) False by (intro jp_elems_print) (auto simp: list_all_iff)
    obtain rest where rest: "join_comma (map json_print xs) @ CHR '']'' # r = json_print (hd xs) @ rest"
      using join_comma_hd [OF False] by blast
    obtain c cs where "json_print (hd xs) = c # cs" "c \<noteq> CHR '']''" "\<not> json_ws c"
      using json_print_head [of "hd xs"] by auto
    with elems rest show ?thesis by (subst jp_value.simps) (simp add: json_ws_def)
  qed
next
  case (JObj fs)
  let ?m = "\<lambda>(k, v). json_quote k @ CHR '':'' # json_print v"
  have wf: "distinct (map fst fs)" "own_keys_order fs = fs" "\<forall>kv \<in> set fs. json_wf (snd kv)"
    using JObj.prems(1) by (simp_all add: list_all_iff)
  then have keep: "filter (\<lambda>(k, v). v \<noteq> JUndef) fs = fs" by (auto simp: filter_id_conv)
  show ?case
  proof (cases "fs = []")
    case True
    then show ?thesis by (subst jp_value.simps) (simp add: json_ws_def)
  next
    case False
    have members: "jp_members (join_comma (map ?m fs) @ CHR ''}'' # r) = Inr (fs, r)"
    proof (rule jp_members_print [OF _ False])
      fix k v r' assume "(k, v) \<in> set fs" "json_stop r'"
      with JObj.IH wf(3) show "jp_value (json_print v @ r') = Inr (v, r')" by fastforce
    qed
    obtain rest where "join_comma (map ?m fs) @ CHR ''}'' # r = ?m (hd fs) @ rest"
      using join_comma_hd [OF False] by blast
    then obtain rest' where eq: "join_comma (map ?m fs) @ CHR ''}'' # r = quote_char # rest'"
      by (simp add: json_quote_def split: prod.splits)
    show ?thesis
      by (subst jp_value.simps) (simp add: keep eq members [unfolded eq] js_object_ordered [OF wf(1,2)])
  qed
qed simp

lemma json_parse_print: "json_wf v \<Longrightarrow> json_parse (json_print v) = Inr v"
  using jp_value_print [of v "[]"] skip_ws_print [of v "[]"] by (simp add: json_parse_def skip_ws_def)

subsection \<open>Lemmas: objects as JSON.parse builds them\<close>

lemma map_fst_obj_update:
  "map (fst \<circ> (\<lambda>(k, v). if k = fst kv then kv else (k, v))) fs = map fst fs"
  by (induction fs) auto

lemma obj_put_distinct: "distinct (map fst fs) \<Longrightarrow> distinct (map fst (obj_put fs kv))"
  by (auto simp: obj_put_def map_fst_obj_update)

lemma obj_put_set: "set (obj_put fs kv) \<subseteq> insert kv (set fs)"
  by (auto simp: obj_put_def)

lemma foldl_obj_put_props:
  "distinct (map fst acc) \<Longrightarrow>
     distinct (map fst (foldl obj_put acc ms)) \<and> set (foldl obj_put acc ms) \<subseteq> set acc \<union> set ms"
proof (induction ms arbitrary: acc)
  case (Cons kv ms)
  have "distinct (map fst (obj_put acc kv))" using Cons.prems by (rule obj_put_distinct)
  with Cons.IH obj_put_set [of acc kv] show ?case by auto
qed simp

lemma own_keys_order_set [simp]: "set (own_keys_order fs) = set fs"
  by (auto simp: own_keys_order_def)

lemma own_keys_order_distinct:
  assumes "distinct (map fst fs)"
  shows "distinct (map fst (own_keys_order fs))"
proof -
  let ?P = "\<lambda>kv. index_key (fst kv)"
  have "distinct (map fst (filter ?P fs))" "distinct (map fst (filter (Not \<circ> ?P) fs))"
    using assms by (simp_all add: distinct_map_filter)
  then have "distinct (map fst (sort_key (\<lambda>kv. index_of_key (fst kv)) (filter ?P fs)))"
    by (simp add: distinct_map)
  moreover have "fst ` set (filter ?P fs) \<inter> fst ` set (filter (\<lambda>kv. \<not> ?P kv) fs) = {}" by auto
  ultimately show ?thesis
    using \<open>distinct (map fst (filter (Not \<circ> ?P) fs))\<close> by (simp add: own_keys_order_def comp_def)
qed

lemma own_keys_order_idem: "own_keys_order (own_keys_order fs) = own_keys_order fs"
proof -
  let ?P = "\<lambda>kv. index_key (fst kv)" and ?g = "\<lambda>kv. index_of_key (fst kv)"
  let ?A = "sort_key ?g (filter ?P fs)" and ?B = "filter (\<lambda>kv. \<not> ?P kv) fs"
  have "filter ?P ?A = ?A" "filter (\<lambda>kv. \<not> ?P kv) ?A = []" by (auto simp: filter_id_conv filter_empty_conv)
  moreover have "filter ?P ?B = []" "filter (\<lambda>kv. \<not> ?P kv) ?B = ?B" by (auto simp: filter_empty_conv)
  moreover have "sort_key ?g ?A = ?A" by (rule sort_key_id_if_sorted) simp
  ultimately show ?thesis by (simp add: own_keys_order_def)
qed

lemma own_keys_order_Nil [simp]: "own_keys_order [] = []"
  by (simp add: own_keys_order_def)

lemma js_object_keys [simp]:
  "distinct (map fst (js_object ms))" "own_keys_order (js_object ms) = js_object ms"
  using foldl_obj_put_props [of "[]" ms] own_keys_order_distinct [of "foldl obj_put [] ms"]
  by (simp_all add: js_object_def own_keys_order_idem)

lemma js_object_values:
  "list_all (\<lambda>kv. json_wf (snd kv)) ms \<Longrightarrow> list_all (\<lambda>kv. json_wf (snd kv)) (js_object ms)"
  using foldl_obj_put_props [of "[]" ms] by (auto simp: js_object_def list_all_iff)

subsection \<open>Lemmas: what the parser returns\<close>

text \<open>Each parser returns a strictly shorter rest, so every length guard holds
  where it is reached; and every value it returns is well formed.\<close>

lemma map_jp_eq_Inr: "map_jp f p = Inr (x, r) \<longleftrightarrow> (\<exists>y. p = Inr (y, r) \<and> x = f y)"
  by (cases p) (auto simp: map_jp_def)

lemma jp_string_consumes: "jp_string s = Inr (x, r) \<Longrightarrow> length r < length s"
proof (induction "length s" arbitrary: s x rule: less_induct)
  case less
  show ?case
  proof (cases s)
    case Nil
    with less.prems show ?thesis by (simp add: jp_string.simps)
  next
    case (Cons c cs)
    consider (quote) "c = quote_char"
      | (esc) e rr where "c \<noteq> quote_char" "c = backslash" "cs = e # rr"
      | (other) "c \<noteq> quote_char" "c \<noteq> backslash"
      | (bad) "c \<noteq> quote_char" "c = backslash" "cs = []"
      by (cases cs) blast+
    then show ?thesis
    proof cases
      case quote
      with less.prems Cons show ?thesis by (simp add: jp_string_Cons)
    next
      case other
      with less.prems Cons less.hyps [of cs] show ?thesis
        by (auto simp: jp_string_Cons map_jp_eq_Inr split: if_splits)
    next
      case bad
      with less.prems Cons show ?thesis by (simp add: jp_string_Cons)
    next
      case (esc e rr)
      show ?thesis
      proof (cases "e = CHR ''u''")
        case True
        have "length (drop 4 rr) < length s" using Cons esc by simp
        with less.prems Cons esc True less.hyps [of "drop 4 rr"] show ?thesis
          by (auto simp: jp_string_Cons map_jp_eq_Inr split: if_splits option.splits)
      next
        case False
        have "length rr < length s" using Cons esc by simp
        with less.prems Cons esc False less.hyps [of rr] show ?thesis
          by (auto simp: jp_string_Cons map_jp_eq_Inr split: option.splits)
      qed
    qed
  qed
qed

lemma jp_number_consumes: "jp_number s = Inr (v, r) \<Longrightarrow> length r < length s \<and> json_wf v"
  by (cases s) (auto simp: jp_number_def Let_def split: if_splits option.splits
                     intro: le_less_trans [OF length_dropWhile_le])

lemma jp_literal_consumes: "jp_literal w x s = Inr (v, r) \<Longrightarrow> length r \<le> length s \<and> v = x"
  by (auto simp: jp_literal_def split: if_splits)

lemma length_skip_ws_le: "length (skip_ws s) \<le> length s"
  by (simp add: skip_ws_def length_dropWhile_le)

lemma jp_results:
  "(\<forall>v r. jp_value s = Inr (v, r) \<longrightarrow> length r < length s \<and> json_wf v) \<and>
   (\<forall>vs r. jp_elems s = Inr (vs, r) \<longrightarrow> length r < length s \<and> list_all json_wf vs) \<and>
   (\<forall>ms r. jp_members s = Inr (ms, r) \<longrightarrow> length r < length s \<and> list_all (\<lambda>kv. json_wf (snd kv)) ms)"
proof (induction "length s" arbitrary: s rule: less_induct)
  case less
  have V: "length r < length s \<and> json_wf v" if h: "jp_value s = Inr (v, r)" for v r
  proof (cases s)
    case Nil
    with h show ?thesis by (simp add: jp_value.simps)
  next
    case (Cons c cs)
    let ?t = "skip_ws cs"
    have short: "length ?t < length s" using Cons length_skip_ws_le [of cs] by simp
    note hyp = less.hyps [OF short]
    show ?thesis
      using h hyp short
      by (subst (asm) jp_value.simps)
         (auto simp: Cons Let_def map_jp_eq_Inr js_object_values
               dest!: jp_literal_consumes jp_number_consumes jp_string_consumes split: if_splits)
  qed
  have tl_le: "length (skip_ws (tl (skip_ws x))) \<le> length x" for x
    using length_skip_ws_le [of x] length_skip_ws_le [of "tl (skip_ws x)"] by simp
  have E: "length r < length s \<and> list_all json_wf vs" if h: "jp_elems s = Inr (vs, r)" for vs r
  proof -
    from h obtain v r0 where vr: "jp_value s = Inr (v, r0)"
      by (subst (asm) jp_elems.simps) (auto split: sum.splits)
    let ?u = "skip_ws (tl (skip_ws r0))"
    have r0: "length r0 < length s" "json_wf v" using V [OF vr] by simp_all
    have IH: "jp_elems ?u = Inr (vs', r') \<Longrightarrow> length r' < length ?u \<and> list_all json_wf vs'" for vs' r'
      using less.hyps [of ?u] r0(1) tl_le [of r0] by auto
    have "length (tl (skip_ws r0)) < length s" using r0(1) length_skip_ws_le [of r0] by simp
    with h vr r0 show ?thesis
      by (subst (asm) jp_elems.simps) (auto simp: Let_def map_jp_eq_Inr dest!: IH split: if_splits)
  qed
  have M: "length r < length s \<and> list_all (\<lambda>kv. json_wf (snd kv)) ms" if h: "jp_members s = Inr (ms, r)" for ms r
  proof -
    from h obtain k r1 where kr: "jp_string (tl s) = Inr (k, r1)" "s \<noteq> []" "hd s = quote_char"
      by (subst (asm) jp_members.simps) (auto split: sum.splits if_splits)
    let ?u = "skip_ws (tl (skip_ws r1))"
    have r1: "length r1 < length s" using jp_string_consumes [OF kr(1)] kr(2) by simp
    from h kr obtain v r2 where vr: "jp_value ?u = Inr (v, r2)" "length ?u < length s"
      by (subst (asm) jp_members.simps) (auto simp: Let_def split: sum.splits if_splits)
    have r2: "length r2 < length s" "json_wf v"
      using less.hyps [OF vr(2)] vr by auto
    let ?x = "skip_ws (tl (skip_ws r2))"
    have IH: "jp_members ?x = Inr (ms', r') \<Longrightarrow> length r' < length ?x \<and> list_all (\<lambda>kv. json_wf (snd kv)) ms'"
      for ms' r' using less.hyps [of ?x] r2(1) tl_le [of r2] by auto
    have "length (tl (skip_ws r2)) < length s" using r2(1) length_skip_ws_le [of r2] by simp
    with h kr vr r2 show ?thesis
      by (subst (asm) jp_members.simps) (auto simp: Let_def map_jp_eq_Inr dest!: IH split: if_splits)
  qed
  from V E M show ?case by blast
qed

lemma jp_value_consumes: "jp_value s = Inr (v, r) \<Longrightarrow> length r < length s"
  using jp_results [of s] by blast

lemma json_parse_wf: "json_parse s = Inr v \<Longrightarrow> json_wf v"
  using jp_results [of "skip_ws s"] by (auto simp: json_parse_def split: sum.splits if_splits)

end
