(* ===== verification/Axios.thy ===== *)
theory Axios
  imports Json Query
begin

text \<open>
  The transport under the generated client: \<open>lib/fetcher\<close> exports an axios
  instance (\<open>api as axiosApi\<close>, line 8 of the list's source) with the
  library's defaults, which \<open>aspida(axiosApi)\<close> wraps; the query's fetch
  function \<open>client.todos.$get()\<close> resolves to the response's \<open>data\<close>. axios
  settles a response by \<open>validateStatus\<close> (a status in \<open>[200, 300)\<close>
  resolves, any other rejects, and so does a request that gets no response)
  and transforms the body by the default \<open>transformResponse\<close>: a non-empty
  string body is run through \<open>JSON.parse\<close>, and when that throws the string
  itself is kept (silent JSON parsing); an empty body stays the empty
  string. Settling yields the event the query receives; \<open>None\<close> marks a body
  outside the value model (see \<open>Json\<close>), of which nothing is claimed.
\<close>

record http_response =
  status :: nat
  body :: string

definition validate_status :: "nat \<Rightarrow> bool" where
  "validate_status st \<longleftrightarrow> 200 \<le> st \<and> st < 300"

definition axios_transform :: "string \<Rightarrow> jsval option" where
  "axios_transform data =
     (if data = [] then Some (JStr data)
      else (case json_parse data of
              Inr v \<Rightarrow> Some v
            | Inl Syntax \<Rightarrow> Some (JStr data)
            | Inl Unrepresentable \<Rightarrow> None))"

definition axios_event :: "http_response option \<Rightarrow> qevent option" where
  "axios_event resp =
     (case resp of
        None \<Rightarrow> Some Fail
      | Some rsp \<Rightarrow>
          if validate_status (status rsp) then map_option Respond (axios_transform (body rsp))
          else Some Fail)"

subsection \<open>Lemmas\<close>

lemma axios_event_ok:
  "validate_status (status rsp) \<Longrightarrow> axios_event (Some rsp) = map_option Respond (axios_transform (body rsp))"
  by (simp add: axios_event_def)

lemma axios_event_rejected:
  "\<not> validate_status (status rsp) \<Longrightarrow> axios_event (Some rsp) = Some Fail"
  by (simp add: axios_event_def)

end
