(* ===== verification/Spec2Isabelle.thy ===== *)
theory Spec2Isabelle
  imports TodoList_Keys Layout Retry Axios
begin

text \<open>
  \<^bold>\<open>A verification development for the rust-todo web front end.\<close>

  \<^bold>\<open>The program.\<close> Two React components of a single-page application.
  \<open>src/src/app/(main)/layout.tsx\<close> (\<open>Component\<close>, the page layout) stacks a
  header of height \<open>headerHeight = "72px"\<close> above a body region of height
  \<open>calc(100vh - 72px)\<close>, both inside a full-viewport \<open>Stack\<close>, and hosts its
  \<open>children\<close> in the body. \<open>src/src/components/index/TodoList/index.tsx\<close>
  (\<open>Component\<close>, the todo list) builds the generated API client
  \<open>api(aspida(axiosApi))\<close> on every render, subscribes to the \<open>todos\<close>
  collection through \<open>useAspidaQuery\<close>, returns a \<open>CircularProgress\<close>
  while the data is falsy, and otherwise logs the data with \<open>console.log\<close>
  and maps it to one \<open><TodoListItem key={value.id} {...value} />\<close> row per
  record in a \<open>Stack\<close>. The page hosts the list inside the layout; the data
  flows from the server through the query to the list's rows.

  \<^bold>\<open>Theories.\<close>
  \<^item> \<open>Prelude\<close>: the \<open>js_simps\<close> and \<open>render_simps\<close> collections, decimal
    printing and parsing of naturals (\<open>show_nat\<close>, \<open>parse_nat\<close>) with their
    round trip, a list lemma.
  \<^item> \<open>JS_Runtime\<close>: the platform. JavaScript values \<open>jsval\<close> (JSON-like,
    integers for numbers), truthiness \<open>js_truthy\<close> (the \<open>!\<close> of line 20),
    property access \<open>get_prop\<close> with its \<open>TypeError\<close> on \<open>undefined\<close> and
    \<open>null\<close>, object spread \<open>spread_props\<close>, \<open>Array.prototype.map\<close> as
    \<open>js_array_map\<close> (first exception wins; a non-array has no \<open>map\<close>), and
    the console as an append-only list passed as explicit state.
  \<^item> \<open>React_Elements\<close>: element trees \<open>'c node\<close> as components return them,
    with \<open>Slot\<close>s for caller-supplied \<open>children\<close> of any type \<open>'c\<close>; the
    traversals \<open>slots\<close> and \<open>elems_of_type\<close>, and \<open>plug\<close>, which fills the
    slots of a layout with a child's output.
  \<^item> \<open>Query\<close>: the query lifecycle behind \<open>useAspidaQuery\<close>, modelled from the
    spec (sections 3, 5, 7) since react-query is a library: a record
    \<open>qstate\<close> (status, data), events \<open>Respond v | Fail\<close>, the step function
    \<open>q_step\<close>, runs \<open>q_run\<close>, and the inductive \<open>q_reach\<close> of states
    reachable with JSON responses; \<open>q_inv\<close> holds in all of them (rule
    induction, \<open>q_reach_inv\<close>).
  \<^item> \<open>TodoList\<close>: \<open>api\<close>, \<open>client_todos\<close> and \<open>useAspidaQuery\<close> (lines 15,
    17), the row \<open>TodoListItem_elem\<close> (line 37), the body \<open>TodoList_body\<close>
    (lines 20--40: guard, log, map, \<open>Stack\<close> with \<open>todolist_sx\<close>) and the
    whole \<open>TodoList_Component\<close> (lines 14--41). A render maps the hook's data
    and the console to the element tree or the thrown \<open>TypeError\<close>, and the
    new console.
  \<^item> \<open>CSS_Lengths\<close>: the lengths the layout writes (\<open>px\<close>, \<open>vw\<close>, \<open>vh\<close>,
    \<open>%\<close>, \<open>calc(a - b)\<close>), their printer and parser with the round trip
    \<open>css_parse_print\<close>, and their resolution against a viewport; a negative
    \<open>calc()\<close> height is used as 0.
  \<^item> \<open>Layout\<close>: \<open>Props\<close>, \<open>headerHeight\<close>, \<open>Header_elem\<close>, the \<open>sx\<close> objects
    and \<open>layout_tree\<close> (lines 13--30, for any header height), \<open>Layout\<close>
    (lines 10--31); the boxes \<open>region_heights\<close> and \<open>region_widths\<close> read the
    lengths back from the tree.
  \<^item> \<open>JSX_Runtime\<close>: React 18's \<open>jsx\<close> normalisation of an element:
    \<open>react_key\<close> (the key is \<open>'' + key\<close>, a defined \<open>config.key\<close> taking
    precedence) and \<open>react_props\<close> (the reserved \<open>key\<close>, \<open>ref\<close>,
    \<open>__self\<close>, \<open>__source\<close> removed), read off an element by
    \<open>element_key\<close> and \<open>element_props\<close>; \<open>js_to_string\<close> (in
    \<open>JS_Runtime\<close>) is \<open>String(v)\<close>, with \<open>show_int\<close> from the prelude.
  \<^item> \<open>TodoList_Keys\<close>: the list's rows (line 37) as React keys and props
    them, and the spec's contract read through them: \<open>view_of_render\<close>
    reads a rendered tree as React's keys and props, \<open>promised_view\<close> is
    what the spec promises, and \<open>todo_records_data\<close> the data it covers.
  \<^item> \<open>Retry\<close>: the retry loop react-query runs under \<open>useAspidaQuery\<close>
    with its default options (3 retries after the first attempt, delay
    \<open>min(1000 * 2^n, 30000)\<close> ms before retry \<open>n + 1\<close>), as
    \<open>fetch_with_retry\<close> over a server that answers or fails per attempt; it
    yields the event that settles the query.
  \<^item> \<open>Json\<close>: \<open>JSON.parse\<close> as a recursive-descent parser over characters
    (\<open>jp_value\<close>, \<open>jp_elems\<close>, \<open>jp_members\<close>, mutually recursive, with
    \<open>jp_string\<close> and \<open>jp_number\<close>), objects built as \<open>JSON.parse\<close> builds
    them (\<open>js_object\<close>: a repeated key keeps its first place and its last
    value, array-index keys enumerate first), \<open>JSON.stringify\<close> as
    \<open>json_print\<close>, and the well-formed values \<open>json_wf\<close>. Proved: the
    round trip \<open>json_parse_print\<close>, that every parsed value is well formed
    (\<open>json_parse_wf\<close>), and that each parser consumes input
    (\<open>jp_results\<close>).
  \<^item> \<open>Axios\<close>: the transport of \<open>lib/fetcher\<close> as the generated client uses
    it: \<open>validate_status\<close>, the default \<open>transformResponse\<close>
    (\<open>axios_transform\<close>: JSON parsed silently, an unparsable or empty body
    kept as the string), the event an HTTP outcome gives the query
    (\<open>axios_event\<close>).
  \<^item> This theory: the page \<open>Page\<close> (the list inside the layout), the
    query cache holding the \<open>/todos\<close> query (\<open>todos_cache\<close>), and the
    properties across components.

  \<^bold>\<open>What is proved.\<close> For the list: the spinner alone and no log on
  falsy data (C1); for an array without \<open>null\<close>/\<open>undefined\<close> elements the
  exact tree, rows in order with \<open>key={value.id}\<close> and the spread, and one
  log (C2), and the count of rows (C3); the \<open>TypeError\<close> after the log on
  truthy non-array data (C4); exactly which data render without throwing
  (C5); refinement of the spec's contract through React's JSX runtime on
  records that have an \<open>id\<close> and no reserved field name (C6); the console
  effect of every render (C7). For the layout: the heights with the code's
  72px header (C8) and with any header no higher than the viewport (C9), the
  full widths (C10), the children placed once and unchanged (C11). Across
  components: failures alone keep the spinner on the page for ever (C12), and
  keep the rows of an earlier response (C13). Keys and props as React sees
  them: keys of rows of records with integer ids are distinct exactly when the
  ids are (C14), a record's own \<open>key\<close> field overrides its id (C15), the
  reserved fields never reach a row (C16). Fetching: the first fetch settles
  after 1 to 4 attempts and at most 7000 ms of back-off, and the list then
  shows the spinner exactly when every attempt failed or the body was falsy
  (C17, termination); a truthy response in a run of events makes some render
  leave the spinner (C18, liveness); after rows have been shown, the spinner
  returns exactly when the last later response was falsy (C19, ordering).
  Through the transport: a 2xx body that is not JSON reaches the list as a
  string, which is logged and then makes \<open>todos.map\<close> throw (C20); an empty
  2xx body leaves the spinner although the query succeeded (C21).

  \<^bold>\<open>Bounds and fuel.\<close> Every recursive function is total: all recurse on a
  list or a tree, except \<open>show_nat\<close>, which recurses on \<open>n div 10\<close> under the
  guard \<open>10 \<le> n\<close>, and \<open>fetch_with_retry\<close>, which counts attempts up to
  \<open>retry_limit = 3\<close> and terminates by the measure \<open>retry_limit - failures\<close>
  (the loop stops at the library's bound, so no fuel is needed; the delays sum
  to at most 1000 + 2000 + 4000 = 7000 ms). The JSON parser is a \<open>function\<close>
  on the length of its input: where it continues on what a nested value left
  over, an explicit guard \<open>length rest < length input\<close> makes the descent
  visible to the termination proof, and \<open>jp_results\<close> shows that the guard
  always holds, so it changes no result. Pixel values are naturals and
  viewport units resolve by floor division, which is exact for the
  \<open>100vh\<close>, \<open>100vw\<close> and \<open>100%\<close> the code uses. The box model
  (\<open>region_heights\<close>) resolves declared heights only; this is what the
  browser does while the header is no higher than the viewport, the range
  C8 and C9 are stated for. On a lower viewport the column \<open>Stack\<close> would
  shrink its items by their \<open>flex-shrink\<close>, which is not modelled.

  \<^bold>\<open>Not modelled.\<close> The network itself, request configuration and
  headers of the axios instance (its source is not in the excerpt: the
  library's defaults are assumed), and the generated client's other
  endpoints; JSON texts outside the value model (fractions, exponents,
  integers beyond \<open>2^53\<close>, \<open>\u\<close> escapes above code 255), of which
  nothing is claimed; the commented-out Tauri client; the
  rendering of \<open>TodoListItem\<close> and of \<open>Header\<close> (not in the excerpt; the
  header's box is taken to be as high as its \<open>height\<close> prop, per the spec);
  React's reconciliation beyond the key and props an element carries; MUI's
  styling beyond the lengths; non-integer numbers (so \<open>String(v)\<close> of a
  number is its decimal integer text); react-query's refetch triggers, cache
  eviction and timers (the retry delays are summed, not scheduled); React's
  Strict Mode in development (the double call of the body and of effects).

  \<^bold>\<open>Further work.\<close> Flex layout of the column \<open>Stack\<close> for viewports lower
  than the header; a reimplementation with the explicit error state the
  spec's section 9 asks for.
\<close>

section \<open>The page\<close>

text \<open>The page of the spec's section 2: the list is the layout's content.\<close>

definition Page :: "query_cache \<Rightarrow> console \<Rightarrow> 'c node js_result \<times> console" where
  "Page cache out =
     (case TodoList_Component cache out of
        (Inl e, out') \<Rightarrow> (Inl e, out')
      | (Inr n, out') \<Rightarrow> (Inr (plug (Layout \<lparr>children = ()\<rparr>) (\<lambda>_. n)), out'))"

definition todos_cache :: "qstate \<Rightarrow> query_cache" where
  "todos_cache q = [''/todos'' \<mapsto> q]"

subsection \<open>Lemmas\<close>

lemma TodoList_Component_reads_todos:
  "TodoList_Component cache out = TodoList_body (query_data (cache ''/todos'')) out"
  by (simp add: TodoList_Component_def useAspidaQuery_def client_todos_def api_def)

lemma TodoList_Component_todos_cache [render_simps]:
  "TodoList_Component (todos_cache q) out = TodoList_body (qdata q) out"
  by (simp add: TodoList_Component_reads_todos todos_cache_def query_data_def)

lemma q_run_in_states: "q_run q xs \<in> set (q_states q (xs @ ys))"
proof (induction xs arbitrary: q)
  case Nil
  then show ?case by (cases ys) simp_all
next
  case (Cons x xs)
  then show ?case by simp
qed

lemma truthy_not_spinner:
  "js_truthy d \<Longrightarrow> fst (TodoList_body d out) \<noteq> Inr CircularProgress_elem"
  by (simp add: TodoList_body_truthy CircularProgress_elem_def jsx_def split: sum.split)

lemma q_run_failures_data: "\<forall>e \<in> set es. e = Fail \<Longrightarrow> qdata (q_run q_init es) = JUndef"
  by (simp add: q_run_no_response q_init_def)

lemma spinner_iff_falsy:
  "fst (TodoList_body d out) = Inr (CircularProgress_elem :: 'c node) \<longleftrightarrow> \<not> js_truthy d"
  using truthy_not_spinner [of d out] by (auto simp: TodoList_body_falsy)

section \<open>Properties across components\<close>

text \<open>
  C12. A fetch that only ever fails leaves the page showing the spinner in
  its body for ever, however many failures there are: the code has no error
  branch, and a failed query keeps its data \<open>undefined\<close>.
\<close>

theorem failed_fetches_keep_spinner:
  assumes "\<forall>e \<in> set es. e = Fail"
  shows "Page (todos_cache (q_run q_init es)) out =
           (Inr (plug (Layout \<lparr>children = ()\<rparr>) (\<lambda>_. CircularProgress_elem :: 'c node)), out)"
proof -
  have "TodoList_Component (todos_cache (q_run q_init es)) out = (Inr (CircularProgress_elem :: 'c node), out)"
    using assms by (simp add: render_simps q_run_failures_data)
  then show ?thesis by (simp add: Page_def)
qed

theorem failed_fetches_keep_spinner_witness:
  "Page (todos_cache (q_run q_init [Fail, Fail])) [] =
     (Inr (plug (Layout \<lparr>children = ()\<rparr>) (\<lambda>_. CircularProgress_elem :: nat node)), [])"
  using failed_fetches_keep_spinner [of "[Fail, Fail]" "[]"] by simp

text \<open>
  C13. After a response with an array of records, later failures keep the
  rows of that response on screen: the query keeps its last data.
\<close>

theorem failure_after_response_keeps_rows:
  assumes "\<forall>v \<in> set xs. \<not> nullish v" and "\<forall>e \<in> set fs. e = Fail"
  shows "fst (TodoList_Component (todos_cache (q_run q (Respond (JArr xs) # fs))) out) =
           Inr (jsx ''Stack'' [(''sx'', todolist_sx)] (map todo_row xs))"
  using assms by (simp add: render_simps q_run_no_response)

theorem failure_after_response_keeps_rows_witness:
  "fst (TodoList_Component (todos_cache (q_run q_init [Respond (JArr [JObj [(''id'', JNum 5)]]), Fail])) []) =
     Inr (jsx ''Stack'' [(''sx'', todolist_sx)] [todo_row (JObj [(''id'', JNum 5)]) :: nat node])"
  using failure_after_response_keeps_rows [of "[JObj [(''id'', JNum 5)]]" "[Fail]" q_init "[]"]
  by (simp add: nullish_def)

text \<open>
  C17. Termination of the first fetch: whatever the server does, the retry
  loop behind the hook settles the query after at least 1 and at most 4
  attempts and at most 7000 ms of back-off; the list then shows the spinner
  exactly when every attempt failed or the answer was a falsy body.
\<close>

theorem first_fetch_terminates:
  "\<exists>e n t. fetch_with_retry srv 0 0 = (e, n, t) \<and> 1 \<le> n \<and> n \<le> 4 \<and> t \<le> 7000 \<and>
     (fst (TodoList_Component (todos_cache (q_step q_init e)) out) = Inr (CircularProgress_elem :: 'c node) \<longleftrightarrow>
        (\<forall>i < n. srv i = None) \<or> (\<exists>v. e = Respond v \<and> \<not> js_truthy v))"
proof -
  obtain e n t where run: "fetch_with_retry srv 0 0 = (e, n, t)" by (cases "fetch_with_retry srv 0 0") auto
  note shape = first_fetch_shape [OF run]
  have "fst (TodoList_Component (todos_cache (q_step q_init e)) out) = Inr (CircularProgress_elem :: 'c node) \<longleftrightarrow>
          e = Fail \<or> (\<exists>v. e = Respond v \<and> \<not> js_truthy v)"
  proof (cases e)
    case (Respond v)
    then show ?thesis
      using truthy_not_spinner [of v out] by (auto simp: render_simps TodoList_body_falsy)
  next
    case Fail
    then show ?thesis by (simp add: render_simps q_init_def TodoList_body_falsy)
  qed
  with run shape show ?thesis by blast
qed

theorem first_fetch_terminates_witness:
  "\<exists>e n t. fetch_with_retry (\<lambda>i. None) 0 0 = (e, n, t) \<and> 1 \<le> n \<and> n \<le> 4 \<and> t \<le> 7000 \<and>
     (fst (TodoList_Component (todos_cache (q_step q_init e)) []) = Inr (CircularProgress_elem :: nat node))"
  using first_fetch_terminates [of "\<lambda>i. None" "[]"] by auto

text \<open>
  C18. Liveness: once the server has answered with a truthy body at some
  point of a run, some render of the run is no longer the spinner.
\<close>

theorem truthy_response_leaves_spinner:
  assumes "Respond v \<in> set es" and "js_truthy v"
  shows "\<exists>q \<in> set (q_states q_init es).
           fst (TodoList_Component (todos_cache q) out) \<noteq> Inr (CircularProgress_elem :: 'c node)"
proof -
  from assms(1) obtain pre post where es: "es = pre @ Respond v # post"
    by (auto simp: in_set_conv_decomp)
  let ?q = "q_run q_init (pre @ [Respond v])"
  have "?q \<in> set (q_states q_init es)"
    using q_run_in_states [of q_init "pre @ [Respond v]" post] es by simp
  moreover have "qdata ?q = v" by (simp add: q_run_append)
  then have "fst (TodoList_Component (todos_cache ?q) out) \<noteq> Inr (CircularProgress_elem :: 'c node)"
    using truthy_not_spinner [OF assms(2)] by (simp add: render_simps)
  ultimately show ?thesis by blast
qed

theorem truthy_response_leaves_spinner_witness:
  "\<exists>q \<in> set (q_states q_init [Fail, Respond (JArr [])]).
     fst (TodoList_Component (todos_cache q) []) \<noteq> Inr (CircularProgress_elem :: nat node)"
  using truthy_response_leaves_spinner [of "JArr []" "[Fail, Respond (JArr [])]" "[]"] by simp

text \<open>
  C19. Ordering of responses: once a truthy body has been shown, the list goes
  back to the spinner after any later events exactly when the last response
  among them was falsy; failures alone never bring the spinner back.
\<close>

theorem spinner_returns_only_on_falsy_response:
  assumes "js_truthy v"
  shows "fst (TodoList_Component (todos_cache (q_run q (Respond v # post))) out) = Inr (CircularProgress_elem :: 'c node) \<longleftrightarrow>
           (\<exists>pre w suf. post = pre @ Respond w # suf \<and> \<not> js_truthy w \<and> (\<forall>e \<in> set suf. e = Fail))"
proof -
  have lhs: "fst (TodoList_Component (todos_cache (q_run q (Respond v # post))) out) = Inr (CircularProgress_elem :: 'c node) \<longleftrightarrow>
               \<not> js_truthy (qdata (q_run q (Respond v # post)))"
    by (simp add: render_simps spinner_iff_falsy del: q_run.simps)
  have last: "qdata (q_run q (Respond v # post)) = w"
    if "post = pre @ Respond w # suf" "\<forall>e \<in> set suf. e = Fail" for pre w suf
    using q_run_last_response [OF that(2), of q "Respond v # pre" w] that(1) by simp
  from events_last_response [of post] show ?thesis
  proof
    assume fails: "\<forall>e \<in> set post. e = Fail"
    then have "qdata (q_run q (Respond v # post)) = v"
      using q_run_last_response [OF fails, of q "[]" v] by simp
    moreover have "\<not> (\<exists>pre w suf. post = pre @ Respond w # suf \<and> \<not> js_truthy w \<and> (\<forall>e \<in> set suf. e = Fail))"
      using fails by auto
    ultimately show ?thesis using lhs assms by simp
  next
    assume "\<exists>pre w suf. post = pre @ Respond w # suf \<and> (\<forall>e \<in> set suf. e = Fail)"
    then obtain pre w suf where "post = pre @ Respond w # suf" "\<forall>e \<in> set suf. e = Fail" by blast
    with last lhs show ?thesis by metis
  qed
qed

theorem spinner_returns_only_on_falsy_response_witness:
  "js_truthy (JArr []) \<and>
   fst (TodoList_Component (todos_cache (q_run q_init [Respond (JArr []), Fail, Respond JNull, Fail])) []) =
     Inr (CircularProgress_elem :: nat node)"
proof -
  have t: "js_truthy (JArr [])" by simp
  have "\<exists>pre w suf. [Fail, Respond JNull, Fail] = pre @ Respond w # suf \<and> \<not> js_truthy w \<and>
          (\<forall>e \<in> set suf. e = Fail)"
    by (rule exI [of _ "[Fail]"], rule exI [of _ JNull], rule exI [of _ "[Fail]"]) simp
  then have "fst (TodoList_Component (todos_cache (q_run q_init [Respond (JArr []), Fail, Respond JNull, Fail])) []) =
               Inr (CircularProgress_elem :: nat node)"
    by (rule spinner_returns_only_on_falsy_response [OF t, THEN iffD2])
  with t show ?thesis by (rule conjI)
qed

text \<open>
  C20. A successful response whose body is not JSON (an HTML error page from
  a proxy, say) reaches the list as the raw string: it is truthy, so the list
  logs it and then throws \<open>todos.map is not a function\<close>.
\<close>

theorem non_json_body_throws:
  assumes "validate_status st" and "b \<noteq> []" and "json_parse b = Inl Syntax"
  shows "axios_event (Some \<lparr>status = st, body = b\<rparr>) = Some (Respond (JStr b)) \<and>
         TodoList_Component (todos_cache (q_step q (Respond (JStr b)))) out =
           (Inl (TypeError ''todos.map is not a function'') :: 'c node js_result, out @ [JStr b])"
  using assms by (simp add: axios_event_ok axios_transform_def render_simps TodoList_body_not_array)

theorem non_json_body_throws_witness:
  "axios_event (Some \<lparr>status = 200, body = ''<html>''\<rparr>) = Some (Respond (JStr ''<html>'')) \<and>
   TodoList_Component (todos_cache (q_step q_init (Respond (JStr ''<html>'')))) [] =
     (Inl (TypeError ''todos.map is not a function'') :: nat node js_result, [JStr ''<html>''])"
proof -
  have "json_parse ''<html>'' = Inl Syntax" by code_simp
  moreover have "validate_status 200" by (simp add: validate_status_def)
  ultimately show ?thesis using non_json_body_throws [of 200 "''<html>''" q_init "[]"] by simp
qed

text \<open>
  C21. A successful response with an empty body settles the query as a
  success with the empty string as data, which is falsy: the list shows the
  spinner, and keeps showing it, although the fetch succeeded.
\<close>

theorem empty_body_keeps_spinner:
  assumes "validate_status st"
  shows "axios_event (Some \<lparr>status = st, body = []\<rparr>) = Some (Respond (JStr [])) \<and>
         qstatus (q_step q (Respond (JStr []))) = QSuccess \<and>
         TodoList_Component (todos_cache (q_step q (Respond (JStr [])))) out =
           (Inr (CircularProgress_elem :: 'c node), out)"
  using assms by (simp add: axios_event_ok axios_transform_def render_simps)

theorem empty_body_keeps_spinner_witness:
  "axios_event (Some \<lparr>status = 204, body = []\<rparr>) = Some (Respond (JStr [])) \<and>
   qstatus (q_step q_init (Respond (JStr []))) = QSuccess \<and>
   TodoList_Component (todos_cache (q_step q_init (Respond (JStr [])))) [] =
     (Inr (CircularProgress_elem :: nat node), [])"
  using empty_body_keeps_spinner [of 204 q_init "[]"] by (simp add: validate_status_def)

end
